theory Spec2Isabelle
  imports Complex_Main "HOL-Library.Word"
begin

section \<open>Floating-point values\<close>

text \<open>
  The planner computes with C++ \<^verbatim>\<open>float\<close> and \<^verbatim>\<open>double\<close>. A value is a finite real
  number or one of the three kinds of non-finite value of IEEE 754. Every arithmetic
  operation on \<^verbatim>\<open>double\<close> rounds its exact result to the nearest binary64 number, ties
  to even, with gradual underflow and with overflow to an infinity (\<open>round64\<close>); every
  operation that involves an infinity, a NaN or a zero divisor follows IEEE 754. The
  library functions \<^verbatim>\<open>sqrt\<close>, \<^verbatim>\<open>acos\<close> and \<^verbatim>\<open>cos\<close> are taken as correctly rounded. Zero is
  unsigned: \<open>x / 0\<close> takes the sign of \<open>x\<close>. The only \<^verbatim>\<open>float\<close> operations of the code are
  the conversion of an 8-bit integer, which is exact, and comparisons.
\<close>

datatype fp = Fin real | PInf | NInf | NaN

text \<open>Rounding to the nearest integer, ties to even.\<close>

definition rte :: "real \<Rightarrow> int" where
  "rte x =
     (let f = \<lfloor>x\<rfloor>; d = x - of_int f in
      if d < 1 / 2 then f else if 1 / 2 < d then f + 1 else if even f then f else f + 1)"

definition pow2 :: "int \<Rightarrow> real" where
  "pow2 k = (if 0 \<le> k then 2 ^ nat k else 1 / 2 ^ nat (- k))"

text \<open>The exponent of a real number other than 0: \<open>2 ^ ilog2 x \<le> |x| < 2 ^ (ilog2 x + 1)\<close>.\<close>

definition ilog2 :: "real \<Rightarrow> int" where
  "ilog2 x = \<lfloor>log 2 \<bar>x\<bar>\<rfloor>"

text \<open>
  Rounding to binary64: the significand has 53 bits, so that a number of exponent \<open>e\<close> is
  rounded to a multiple of \<open>2 ^ (e - 52)\<close>; below the smallest normal exponent, - 1022, the
  spacing stays \<open>2 ^ - 1074\<close>; a result of magnitude \<open>2 ^ 1024\<close> or more is an infinity.
\<close>

definition round64 :: "real \<Rightarrow> fp" where
  "round64 x =
     (if x = 0 then Fin 0
      else
        (let e = max (ilog2 x) (- 1022);
             q = pow2 (e - 52);
             y = of_int (rte (x / q)) * q
         in if 2 ^ 1024 \<le> \<bar>y\<bar> then (if 0 < x then PInf else NInf) else Fin y))"

instantiation fp :: "{plus, minus, uminus, times, inverse, ord}"
begin

fun plus_fp :: "fp \<Rightarrow> fp \<Rightarrow> fp" where
  "plus_fp NaN y = NaN"
| "plus_fp x NaN = NaN"
| "plus_fp (Fin a) (Fin b) = round64 (a + b)"
| "plus_fp PInf NInf = NaN"
| "plus_fp NInf PInf = NaN"
| "plus_fp PInf y = PInf"
| "plus_fp NInf y = NInf"
| "plus_fp (Fin a) PInf = PInf"
| "plus_fp (Fin a) NInf = NInf"

fun uminus_fp :: "fp \<Rightarrow> fp" where
  "uminus_fp (Fin a) = Fin (- a)"
| "uminus_fp PInf = NInf"
| "uminus_fp NInf = PInf"
| "uminus_fp NaN = NaN"

definition minus_fp :: "fp \<Rightarrow> fp \<Rightarrow> fp" where
  "minus_fp x y = x + (- y)"

fun times_fp :: "fp \<Rightarrow> fp \<Rightarrow> fp" where
  "times_fp NaN y = NaN"
| "times_fp x NaN = NaN"
| "times_fp (Fin a) (Fin b) = round64 (a * b)"
| "times_fp (Fin a) PInf = (if a = 0 then NaN else if 0 < a then PInf else NInf)"
| "times_fp (Fin a) NInf = (if a = 0 then NaN else if 0 < a then NInf else PInf)"
| "times_fp PInf (Fin b) = (if b = 0 then NaN else if 0 < b then PInf else NInf)"
| "times_fp NInf (Fin b) = (if b = 0 then NaN else if 0 < b then NInf else PInf)"
| "times_fp PInf PInf = PInf"
| "times_fp PInf NInf = NInf"
| "times_fp NInf PInf = NInf"
| "times_fp NInf NInf = PInf"

fun divide_fp :: "fp \<Rightarrow> fp \<Rightarrow> fp" where
  "divide_fp NaN y = NaN"
| "divide_fp x NaN = NaN"
| "divide_fp (Fin a) (Fin b) =
     (if b \<noteq> 0 then round64 (a / b)
      else if a = 0 then NaN else if 0 < a then PInf else NInf)"
| "divide_fp (Fin a) PInf = Fin 0"
| "divide_fp (Fin a) NInf = Fin 0"
| "divide_fp PInf (Fin b) = (if 0 \<le> b then PInf else NInf)"
| "divide_fp NInf (Fin b) = (if 0 \<le> b then NInf else PInf)"
| "divide_fp PInf y = NaN"
| "divide_fp NInf y = NaN"

definition inverse_fp :: "fp \<Rightarrow> fp" where
  "inverse_fp x = Fin 1 div x"

fun less_fp :: "fp \<Rightarrow> fp \<Rightarrow> bool" where
  "less_fp NaN y = False"
| "less_fp x NaN = False"
| "less_fp (Fin a) (Fin b) = (a < b)"
| "less_fp (Fin a) PInf = True"
| "less_fp (Fin a) NInf = False"
| "less_fp PInf y = False"
| "less_fp NInf NInf = False"
| "less_fp NInf y = True"

fun less_eq_fp :: "fp \<Rightarrow> fp \<Rightarrow> bool" where
  "less_eq_fp NaN y = False"
| "less_eq_fp x NaN = False"
| "less_eq_fp (Fin a) (Fin b) = (a \<le> b)"
| "less_eq_fp (Fin a) PInf = True"
| "less_eq_fp (Fin a) NInf = False"
| "less_eq_fp PInf PInf = True"
| "less_eq_fp PInf y = False"
| "less_eq_fp NInf y = True"

instance ..

end

text \<open>The comparison \<^verbatim>\<open>==\<close>: a NaN is equal to nothing, itself included.\<close>

fun feq :: "fp \<Rightarrow> fp \<Rightarrow> bool" where
  "feq NaN y = False"
| "feq x NaN = False"
| "feq x y = (x = y)"

fun isnan :: "fp \<Rightarrow> bool" where
  "isnan NaN = True"
| "isnan x = False"

fun isinf :: "fp \<Rightarrow> bool" where
  "isinf PInf = True"
| "isinf NInf = True"
| "isinf x = False"

fun isfinite :: "fp \<Rightarrow> bool" where
  "isfinite (Fin a) = True"
| "isfinite x = False"

fun fabs :: "fp \<Rightarrow> fp" where
  "fabs (Fin a) = Fin \<bar>a\<bar>"
| "fabs PInf = PInf"
| "fabs NInf = PInf"
| "fabs NaN = NaN"

fun fsqrt :: "fp \<Rightarrow> fp" where
  "fsqrt (Fin a) = (if a < 0 then NaN else round64 (sqrt a))"
| "fsqrt PInf = PInf"
| "fsqrt NInf = NaN"
| "fsqrt NaN = NaN"

fun facos :: "fp \<Rightarrow> fp" where
  "facos (Fin a) = (if - 1 \<le> a \<and> a \<le> 1 then round64 (arccos a) else NaN)"
| "facos x = NaN"

fun fcos :: "fp \<Rightarrow> fp" where
  "fcos (Fin a) = round64 (cos a)"
| "fcos x = NaN"

text \<open>An unsigned 8-bit or 32-bit integer converted to a floating-point value.\<close>

type_synonym u8 = "8 word"
type_synonym u32 = "32 word"

definition fp_of_u8 :: "u8 \<Rightarrow> fp" where
  "fp_of_u8 c = Fin (real (unat c))"

text \<open>\<^verbatim>\<open>std::numeric_limits<float>::max()\<close>, the largest finite single-precision value.\<close>

definition FLT_MAX :: fp where
  "FLT_MAX = Fin ((2 - 1 / 2 ^ 23) * 2 ^ 127)"

section \<open>Cost codes\<close>

text \<open>
  \<^verbatim>\<open>smac_planner/constants.hpp\<close> defines the reserved cost codes and is not among the
  sources at hand. The codes are fixed 8-bit values; they are taken here as a parameter
  of every function that uses them.
\<close>

record cost_codes =
  FREE :: u8
  UNKNOWN :: u8
  INSCRIBED :: u8
  OCCUPIED :: u8
  MAX_NON_OBSTACLE :: u8

section \<open>Node2D\<close>

text \<open>
  A node of the search graph. \<open>parent\<close> is the pointer to the predecessor node
  (\<open>None\<close> is \<^verbatim>\<open>nullptr\<close>), with the nodes addressed by natural numbers.
\<close>

record Node2D =
  parent :: "nat option"
  cell_cost :: fp
  accumulated_cost :: fp
  index :: u32
  was_visited :: bool
  is_queued :: bool

definition Node2D_new :: "u8 \<Rightarrow> u32 \<Rightarrow> Node2D" where
  "Node2D_new cost_in idx =
     \<lparr>parent = None,
      cell_cost = fp_of_u8 cost_in,
      accumulated_cost = FLT_MAX,
      index = idx,
      was_visited = False,
      is_queued = False\<rparr>"

definition reset :: "Node2D \<Rightarrow> u8 \<Rightarrow> u32 \<Rightarrow> Node2D" where
  "reset node cost idx =
     node\<lparr>parent := None,
          cell_cost := fp_of_u8 cost,
          accumulated_cost := FLT_MAX,
          index := idx,
          was_visited := False,
          is_queued := False\<rparr>"

definition getCost_node :: "Node2D \<Rightarrow> fp" where
  "getCost_node node = cell_cost node"

definition isNodeValid :: "cost_codes \<Rightarrow> Node2D \<Rightarrow> bool \<Rightarrow> bool" where
  "isNodeValid K node traverse_unknown =
     (let cost = getCost_node node in
      if feq cost (fp_of_u8 (OCCUPIED K)) \<or> feq cost (fp_of_u8 (INSCRIBED K)) then False
      else if feq cost (fp_of_u8 (UNKNOWN K)) \<and> \<not> traverse_unknown then False
      else True)"

section \<open>Errors\<close>

text \<open>
  What the C++ code raises, and the memory accesses that have no defined result: a
  write through a null pointer, and a read or write outside the array it addresses.
\<close>

datatype error =
    RuntimeError string
  | NullPointerWrite
  | WriteOutOfRange nat
  | ReadOutOfRange nat
  | CostmapOutOfBounds u32 u32

fun bindE :: "error + 'a \<Rightarrow> ('a \<Rightarrow> error + 'b) \<Rightarrow> error + 'b" where
  "bindE (Inl e) f = Inl e"
| "bindE (Inr x) f = f x"

section \<open>Neighborhoods\<close>

text \<open>
  The offsets are C++ \<^verbatim>\<open>int\<close>s: 32-bit words, read as two's complement by \<open>sint\<close>.
  \<open>NEIGHBORHOOD_UNKNOWN\<close> is \<^verbatim>\<open>Neighborhood::UNKNOWN\<close>, and \<open>NEIGHBORHOOD_OTHER\<close> is any
  value of the enumeration type that is none of its three enumerators, for which the
  \<^verbatim>\<open>switch\<close> takes its default branch.
\<close>

type_synonym i32 = "32 word"

datatype Neighborhood = NEIGHBORHOOD_UNKNOWN | VON_NEUMANN | MOORE | NEIGHBORHOOD_OTHER

definition initNeighborhoods :: "u32 \<Rightarrow> Neighborhood \<Rightarrow> error + i32 list" where
  "initNeighborhoods x_size_uint neighborhood =
     (let x_size = x_size_uint in
      case neighborhood of
        NEIGHBORHOOD_UNKNOWN \<Rightarrow> Inl (RuntimeError ''Unknown neighborhood type selected.'')
      | VON_NEUMANN \<Rightarrow> Inr [- 1, 1, - x_size, x_size]
      | MOORE \<Rightarrow> Inr [- 1, 1, - x_size, x_size, - x_size - 1,
                       - x_size + 1, x_size - 1, x_size + 1]
      | NEIGHBORHOOD_OTHER \<Rightarrow> Inl (RuntimeError ''Invalid neighborhood type selected.''))"

text \<open>
  The validity checker is a \<^verbatim>\<open>std::function<bool(const unsigned int&, Node2D*&)>\<close>: it is
  given the candidate index and the variable \<^verbatim>\<open>neighbor\<close> by reference, may change the
  graph (\<open>'g\<close>, the state it works on), and returns its verdict, the new value of
  \<^verbatim>\<open>neighbor\<close> and the new graph. \<open>'p\<close> is the type of node pointers.
\<close>

type_synonym ('p, 'g) validity_checker = "u32 \<Rightarrow> 'p \<Rightarrow> 'g \<Rightarrow> bool \<times> 'p \<times> 'g"

text \<open>
  The loop of \<^verbatim>\<open>getNeighbors\<close>. The counter starts at 0 and the source stops it with
  \<^verbatim>\<open>i != size\<close>, which for a counter that counts up from 0 is \<open>i < size\<close>. The state
  is the variable \<^verbatim>\<open>neighbor\<close>, the graph and the vector \<^verbatim>\<open>neighbors\<close>.
\<close>

function getNeighbors_loop ::
  "i32 list \<Rightarrow> i32 \<Rightarrow> ('p, 'g) validity_checker \<Rightarrow> nat \<Rightarrow> 'p \<times> 'g \<times> 'p list
     \<Rightarrow> 'p \<times> 'g \<times> 'p list" where
  "getNeighbors_loop offsets node_i validity_checker i (neighbor, g, neighbors) =
     (if i < length offsets then
        (let idx = node_i + offsets ! i in
         if 0 < sint idx then
           (case validity_checker idx neighbor g of
              (ok, neighbor', g') \<Rightarrow>
                getNeighbors_loop offsets node_i validity_checker (i + 1)
                  (neighbor', g', if ok then neighbors @ [neighbor'] else neighbors))
         else getNeighbors_loop offsets node_i validity_checker (i + 1) (neighbor, g, neighbors))
      else (neighbor, g, neighbors))"
  by pat_completeness auto
termination
  by (relation "measure (\<lambda>(offsets, node_i, chk, i, st). length offsets - i)") auto

text \<open>
  \<^verbatim>\<open>getNeighbors\<close>: \<open>neighbor0\<close> is the value the uninitialised local variable
  \<^verbatim>\<open>neighbor\<close> holds at the start. The result is the graph and the vector of neighbors.
\<close>

definition getNeighbors ::
  "i32 list \<Rightarrow> Node2D \<Rightarrow> ('p, 'g) validity_checker \<Rightarrow> 'p \<Rightarrow> 'g \<Rightarrow> 'p list \<Rightarrow> 'g \<times> 'p list" where
  "getNeighbors offsets node validity_checker neighbor0 g neighbors =
     (let node_i = index node in
      case getNeighbors_loop offsets node_i validity_checker 0 (neighbor0, g, neighbors) of
        (neighbor, g', neighbors') \<Rightarrow> (g', neighbors'))"

text \<open>
  The enumeration as the specification words it: for each offset \<open>d\<close> of the table in
  order, \<open>j = node.index + d\<close>; if \<open>j > 0\<close> and the validity function returns true for
  \<open>j\<close>, its out-node is emitted.
\<close>

fun neighbors_spec ::
  "('p, 'g) validity_checker \<Rightarrow> i32 \<Rightarrow> i32 list \<Rightarrow> 'p \<Rightarrow> 'g \<Rightarrow> 'g \<times> 'p list" where
  "neighbors_spec validity_fn node_index [] out_node g = (g, [])"
| "neighbors_spec validity_fn node_index (d # ds) out_node g =
     (let j = node_index + d in
      if 0 < sint j then
        (case validity_fn j out_node g of
           (ok, out_node', g') \<Rightarrow>
             (case neighbors_spec validity_fn node_index ds out_node' g' of
                (g'', emitted) \<Rightarrow> (g'', if ok then out_node' # emitted else emitted)))
      else neighbors_spec validity_fn node_index ds out_node g)"

text \<open>Cost codes for the examples: 0 for free space, 253 to 255 for the three reserved
  codes, and 252 for the highest cost that is still traversable.\<close>

definition example_codes :: cost_codes where
  "example_codes =
     \<lparr>FREE = 0, UNKNOWN = 255, INSCRIBED = 253, OCCUPIED = 254, MAX_NON_OBSTACLE = 252\<rparr>"

section \<open>Vectors\<close>

text \<open>
  \<^verbatim>\<open>Eigen::Vector2d\<close> as a pair of coordinates, with the operations of Eigen the smoother
  uses. \<open>normalize_v\<close> is Eigen's \<^verbatim>\<open>normalize()\<close>: a vector of positive squared norm is
  divided by its norm, any other vector is left as it is.
\<close>

type_synonym vec2 = "fp \<times> fp"

definition dot :: "vec2 \<Rightarrow> vec2 \<Rightarrow> fp" where
  "dot a b = fst a * fst b + snd a * snd b"

definition squaredNorm :: "vec2 \<Rightarrow> fp" where
  "squaredNorm a = dot a a"

definition norm_v :: "vec2 \<Rightarrow> fp" where
  "norm_v a = fsqrt (squaredNorm a)"


definition vsub :: "vec2 \<Rightarrow> vec2 \<Rightarrow> vec2" where
  "vsub a b = (fst a - fst b, snd a - snd b)"

definition vneg :: "vec2 \<Rightarrow> vec2" where
  "vneg a = (- fst a, - snd a)"

definition smul :: "fp \<Rightarrow> vec2 \<Rightarrow> vec2" where
  "smul k a = (k * fst a, k * snd a)"

definition vscale :: "vec2 \<Rightarrow> fp \<Rightarrow> vec2" where
  "vscale a k = (fst a * k, snd a * k)"

definition vdiv :: "vec2 \<Rightarrow> fp \<Rightarrow> vec2" where
  "vdiv a k = (fst a / k, snd a / k)"

definition normalize_v :: "vec2 \<Rightarrow> vec2" where
  "normalize_v a = (let z = squaredNorm a in if Fin 0 < z then vdiv a (fsqrt z) else a)"

section \<open>The costmap\<close>

text \<open>
  \<^verbatim>\<open>MinimalCostmap\<close> is declared in \<^verbatim>\<open>smac_planner/minimal_costmap.hpp\<close>, which is
  not among the sources at hand. Its sizes and cells are the fields of a record;
  \<open>worldToMap\<close>, which the smoother only calls, is a field too: it returns the cell of a
  world point, or \<open>None\<close> for the result false.
\<close>

record MinimalCostmap =
  sizeX :: u32
  sizeY :: u32
  cells :: "u32 \<Rightarrow> u32 \<Rightarrow> u8"
  worldToMap :: "fp \<Rightarrow> fp \<Rightarrow> (u32 \<times> u32) option"

text \<open>
  Modelled from the spec: \<^verbatim>\<open>MinimalCostmap::getCost\<close> is missing from the sources. The
  costmap view has \<open>get_cost(mx, my) \<rightarrow> u8\<close>, and all reads are infallible within
  \<open>[0, W) \<times> [0, H)\<close>. A read outside the grid has no defined result, and is an error
  of the model.
\<close>

definition getCost :: "MinimalCostmap \<Rightarrow> u32 \<Rightarrow> u32 \<Rightarrow> error + fp" where
  "getCost cm mx my =
     (if mx < sizeX cm \<and> my < sizeY cm then Inr (fp_of_u8 (cells cm mx my))
      else Inl (CostmapOutOfBounds mx my))"

section \<open>The smoother cost function\<close>

text \<open>\<^verbatim>\<open>#define EPSILON 0.0001\<close>: the literal is the double nearest to \<open>1 / 10000\<close>.\<close>

definition EPSILON :: fp where
  "EPSILON = round64 (1 / 10000)"

text \<open>
  The fields of \<^verbatim>\<open>UnconstrainedSmootherCostFunction\<close> that the code reads.
  \<^verbatim>\<open>_num_params\<close> is \<open>2 * original_path.size()\<close>.
\<close>

record SmootherCostFunction =
  original_path :: "vec2 list"
  costmap :: MinimalCostmap
  Wsmooth :: fp
  Wcurve :: fp
  Wcost :: fp
  Wdist :: fp
  max_turning_radius :: fp

definition NumParameters :: "SmootherCostFunction \<Rightarrow> nat" where
  "NumParameters s = 2 * length (original_path s)"

record CurvatureComputations =
  valid :: bool
  delta_xi :: vec2
  delta_xi_p :: vec2
  delta_xi_norm :: fp
  delta_xi_p_norm :: fp
  delta_phi_i :: fp
  turning_rad :: fp
  ki_minus_kmax :: fp

text \<open>
  The constructor of \<^verbatim>\<open>CurvatureComputations\<close>. It leaves the two vectors uninitialised;
  \<^verbatim>\<open>addCurvatureResidual\<close> assigns them before anything reads them.
\<close>

definition CurvatureComputations_new :: CurvatureComputations where
  "CurvatureComputations_new =
     \<lparr>valid = True, delta_xi = (Fin 0, Fin 0), delta_xi_p = (Fin 0, Fin 0),
      delta_xi_norm = Fin 0, delta_xi_p_norm = Fin 0, delta_phi_i = Fin 0,
      turning_rad = Fin 0, ki_minus_kmax = Fin 0\<rparr>"

definition isValid :: "CurvatureComputations \<Rightarrow> bool" where
  "isValid curvature_params = valid curvature_params"

definition addCostResidual :: "cost_codes \<Rightarrow> fp \<Rightarrow> fp \<Rightarrow> fp \<Rightarrow> fp" where
  "addCostResidual K weight v r =
     (if feq v (fp_of_u8 (FREE K)) \<or> feq v (fp_of_u8 (UNKNOWN K)) then r
      else r + Fin (- 1) * weight * (v - fp_of_u8 (MAX_NON_OBSTACLE K))
                 * (v - fp_of_u8 (MAX_NON_OBSTACLE K)))"

text \<open>
  One sample of \<^verbatim>\<open>getCostmapGradient\<close>: a variable that starts at 0.0 and is assigned
  the cost of a cell if the guard holds.
\<close>

definition guarded_read :: "MinimalCostmap \<Rightarrow> bool \<Rightarrow> u32 \<Rightarrow> u32 \<Rightarrow> error + fp" where
  "guarded_read cm guard x y = (if guard then getCost cm x y else Inr (Fin 0))"

definition getCostmapGradient :: "MinimalCostmap \<Rightarrow> u32 \<Rightarrow> u32 \<Rightarrow> error + vec2" where
  "getCostmapGradient cm mx my =
     bindE (guarded_read cm (mx < sizeX cm) (mx + 1) my) (\<lambda>right_one.
     bindE (guarded_read cm (mx + 1 < sizeX cm) (mx + 2) my) (\<lambda>right_two.
     bindE (guarded_read cm (mx + 2 < sizeX cm) (mx + 3) my) (\<lambda>right_three.
     bindE (guarded_read cm (0 < mx) (mx - 1) my) (\<lambda>left_one.
     bindE (guarded_read cm (0 < mx - 1) (mx - 2) my) (\<lambda>left_two.
     bindE (guarded_read cm (0 < mx - 2) (mx - 3) my) (\<lambda>left_three.
     bindE (guarded_read cm (my < sizeY cm) mx (my + 1)) (\<lambda>up_one.
     bindE (guarded_read cm (my + 1 < sizeY cm) mx (my + 2)) (\<lambda>up_two.
     bindE (guarded_read cm (my + 2 < sizeY cm) mx (my + 3)) (\<lambda>up_three.
     bindE (guarded_read cm (0 < my) mx (my - 1)) (\<lambda>down_one.
     bindE (guarded_read cm (0 < my - 1) mx (my - 2)) (\<lambda>down_two.
     bindE (guarded_read cm (0 < my - 2) mx (my - 3)) (\<lambda>down_three.
     Inr (normalize_v
       ((Fin 45 * up_one - Fin 9 * up_two + up_three
           - Fin 45 * down_one + Fin 9 * down_two - down_three) / Fin 60,
        (Fin 45 * right_one - Fin 9 * right_two + right_three
           - Fin 45 * left_one + Fin 9 * left_two - left_three) / Fin 60))))))))))))))"

definition addCostJacobian ::
  "cost_codes \<Rightarrow> MinimalCostmap \<Rightarrow> fp \<Rightarrow> u32 \<Rightarrow> u32 \<Rightarrow> fp \<Rightarrow> fp \<times> fp \<Rightarrow> error + fp \<times> fp" where
  "addCostJacobian K cm weight mx my v j =
     (if feq v (fp_of_u8 (FREE K)) \<or> feq v (fp_of_u8 (UNKNOWN K)) then Inr j
      else
        bindE (getCostmapGradient cm mx my) (\<lambda>grad.
          let common_prefix = Fin (- 2) * weight * (v - fp_of_u8 (MAX_NON_OBSTACLE K))
          in Inr (fst j + common_prefix * fst grad, snd j + common_prefix * snd grad)))"

definition addCurvatureResidual ::
  "fp \<Rightarrow> fp \<Rightarrow> vec2 \<Rightarrow> vec2 \<Rightarrow> vec2 \<Rightarrow> CurvatureComputations \<Rightarrow> fp
     \<Rightarrow> CurvatureComputations \<times> fp" where
  "addCurvatureResidual weight kmax pt pt_p pt_m curvature_params r =
     (let cp1 = curvature_params
           \<lparr>valid := True,
            delta_xi := (fst pt - fst pt_m, snd pt - snd pt_m),
            delta_xi_p := (fst pt_p - fst pt, snd pt_p - snd pt)\<rparr>;
          cp2 = cp1\<lparr>delta_xi_norm := norm_v (delta_xi cp1)\<rparr>;
          cp3 = cp2\<lparr>delta_xi_p_norm := norm_v (delta_xi_p cp2)\<rparr>
      in
      if delta_xi_norm cp3 < EPSILON \<or> delta_xi_p_norm cp3 < EPSILON \<or>
         isnan (delta_xi_p_norm cp3) \<or> isnan (delta_xi_norm cp3) \<or>
         isinf (delta_xi_p_norm cp3) \<or> isinf (delta_xi_norm cp3)
      then (cp3\<lparr>valid := False\<rparr>, r)
      else
        (let delta_xi_by_xi_p = delta_xi_norm cp3 * delta_xi_p_norm cp3;
             projection0 = dot (delta_xi cp3) (delta_xi_p cp3) / delta_xi_by_xi_p;
             projection =
               (if fabs (Fin 1 - projection0) < EPSILON \<or> fabs (projection0 + Fin 1) < EPSILON
                then Fin 1 else projection0);
             cp4 = cp3\<lparr>delta_phi_i := facos projection\<rparr>;
             cp5 = cp4\<lparr>turning_rad := delta_phi_i cp4 / delta_xi_norm cp4\<rparr>;
             cp6 = cp5\<lparr>ki_minus_kmax := turning_rad cp5 - kmax\<rparr>
         in
         if ki_minus_kmax cp6 \<le> EPSILON then (cp6\<lparr>valid := False\<rparr>, r)
         else (cp6, r + weight * ki_minus_kmax cp6 * ki_minus_kmax cp6)))"

definition normalizedOrthogonalComplement :: "vec2 \<Rightarrow> vec2 \<Rightarrow> fp \<Rightarrow> fp \<Rightarrow> vec2" where
  "normalizedOrthogonalComplement a b a_norm b_norm =
     vdiv (vsub a (vdiv (vscale b (dot a b)) (squaredNorm b))) (a_norm * b_norm)"

definition addCurvatureJacobian ::
  "fp \<Rightarrow> vec2 \<Rightarrow> vec2 \<Rightarrow> vec2 \<Rightarrow> CurvatureComputations \<Rightarrow> fp \<times> fp \<Rightarrow> fp \<times> fp" where
  "addCurvatureJacobian weight pt pt_p pt_m curvature_params j =
     (if \<not> isValid curvature_params then j
      else
        (let partial_delta_phi_i_wrt_cost_delta_phi_i =
               Fin (- 1) / fsqrt (Fin 1 - fcos (delta_phi_i curvature_params)
                                            * fcos (delta_phi_i curvature_params));
             ones = (Fin 1, Fin 1);
             neg_pt_plus = smul (Fin (- 1)) pt_p;
             p1 = normalizedOrthogonalComplement pt neg_pt_plus
                    (delta_xi_norm curvature_params) (delta_xi_p_norm curvature_params);
             p2 = normalizedOrthogonalComplement neg_pt_plus pt
                    (delta_xi_p_norm curvature_params) (delta_xi_norm curvature_params);
             u = Fin 2 * ki_minus_kmax curvature_params;
             common_prefix = (Fin (- 1) / delta_xi_norm curvature_params)
                               * partial_delta_phi_i_wrt_cost_delta_phi_i;
             common_suffix = delta_phi_i curvature_params
                               / (delta_xi_norm curvature_params * delta_xi_norm curvature_params);
             jacobian = smul u (vsub (smul common_prefix (vsub (vneg p1) p2))
                                     (smul common_suffix ones));
             jacobian_im1 = smul u (vsub (smul common_prefix p2) (smul common_suffix ones));
             jacobian_ip1 = smul u (smul common_prefix p1)
         in (fst j + weight * (fst jacobian_im1 - Fin 2 * fst jacobian + fst jacobian_ip1),
             snd j + weight * (snd jacobian_im1 - Fin 2 * snd jacobian + snd jacobian_ip1))))"

definition addSmoothingResidual :: "fp \<Rightarrow> vec2 \<Rightarrow> vec2 \<Rightarrow> vec2 \<Rightarrow> fp \<Rightarrow> fp" where
  "addSmoothingResidual weight pt pt_p pt_m r =
     r + weight * (dot pt_p pt_p
                   - Fin 4 * dot pt_p pt
                   + Fin 2 * dot pt_p pt_m
                   + Fin 4 * dot pt pt
                   - Fin 4 * dot pt pt_m
                   + dot pt_m pt_m)"

definition addSmoothingJacobian :: "fp \<Rightarrow> vec2 \<Rightarrow> vec2 \<Rightarrow> vec2 \<Rightarrow> fp \<times> fp \<Rightarrow> fp \<times> fp" where
  "addSmoothingJacobian weight pt pt_p pt_m j =
     (fst j + weight * (Fin (- 4) * fst pt_m + Fin 8 * fst pt - Fin 4 * fst pt_p),
      snd j + weight * (Fin (- 4) * snd pt_m + Fin 8 * snd pt - Fin 4 * snd pt_p))"

definition addDistanceResidual :: "fp \<Rightarrow> vec2 \<Rightarrow> vec2 \<Rightarrow> fp \<Rightarrow> fp" where
  "addDistanceResidual weight xi xi_original r =
     r + weight * dot (vsub xi xi_original) (vsub xi xi_original)"

definition addDistanceJacobian :: "fp \<Rightarrow> vec2 \<Rightarrow> vec2 \<Rightarrow> fp \<times> fp \<Rightarrow> fp \<times> fp" where
  "addDistanceJacobian weight xi xi_original j =
     (fst j + weight * Fin 2 * (fst xi - fst xi_original),
      snd j + weight * Fin 2 * (snd xi - snd xi_original))"

subsection \<open>Evaluate\<close>

text \<open>
  \<^verbatim>\<open>parameters\<close> and \<^verbatim>\<open>gradient\<close> are pointers to arrays of \<^verbatim>\<open>double\<close>: lists here,
  with \<open>None\<close> for the null pointer that the optimizer passes as \<^verbatim>\<open>gradient\<close> when
  it wants the cost only. A write through the null pointer and an access outside the
  array are errors. \<^verbatim>\<open>original_path->at(i)\<close> is the bounds-checked access of
  \<^verbatim>\<open>std::vector\<close>.
\<close>

definition write_array :: "nat \<Rightarrow> fp \<Rightarrow> fp list option \<Rightarrow> error + fp list option" where
  "write_array k v g =
     (case g of
        None \<Rightarrow> Inl NullPointerWrite
      | Some a \<Rightarrow> if k < length a then Inr (Some (a[k := v])) else Inl (WriteOutOfRange k))"

definition read_array :: "fp list \<Rightarrow> nat \<Rightarrow> error + fp" where
  "read_array a k = (if k < length a then Inr (a ! k) else Inl (ReadOutOfRange k))"

definition read_point :: "fp list \<Rightarrow> nat \<Rightarrow> nat \<Rightarrow> error + vec2" where
  "read_point a kx ky =
     bindE (read_array a kx) (\<lambda>x. bindE (read_array a ky) (\<lambda>y. Inr (x, y)))"

definition path_at :: "SmootherCostFunction \<Rightarrow> nat \<Rightarrow> error + vec2" where
  "path_at s i =
     (if i < length (original_path s) then Inr (original_path s ! i)
      else Inl (RuntimeError ''vector::at out of range''))"

text \<open>
  The variables of \<^verbatim>\<open>Evaluate\<close> that live across the iterations of its loop.
  \<^verbatim>\<open>grad_x_raw\<close> and \<^verbatim>\<open>grad_y_raw\<close> are set to 0 once, before the loop.
  The variables \<^verbatim>\<open>mx\<close>, \<^verbatim>\<open>my\<close>, \<^verbatim>\<open>valid_coords\<close> and \<^verbatim>\<open>costmap_cost\<close> are assigned in
  an iteration before the iteration reads them: they are the optional triple
  \<open>(mx, my, costmap_cost)\<close> that the first half of the body hands to the second,
  \<open>None\<close> when \<^verbatim>\<open>valid_coords\<close> is false.
\<close>

record eval_state =
  cost_raw :: fp
  grad_x_raw :: fp
  grad_y_raw :: fp
  curvature_params :: CurvatureComputations
  gradient :: "fp list option"

text \<open>The statements under \<^verbatim>\<open>// compute cost\<close>.\<close>

definition costmap_residual ::
  "cost_codes \<Rightarrow> SmootherCostFunction \<Rightarrow> vec2 \<Rightarrow> fp \<Rightarrow> error + (u32 \<times> u32 \<times> fp) option \<times> fp" where
  "costmap_residual K s xi r =
     (case worldToMap (costmap s) (fst xi) (snd xi) of
        None \<Rightarrow> Inr (None, r)
      | Some (mx, my) \<Rightarrow>
          bindE (getCost (costmap s) mx my) (\<lambda>costmap_cost.
            Inr (Some (mx, my, costmap_cost), addCostResidual K (Wcost s) costmap_cost r)))"

definition compute_cost ::
  "cost_codes \<Rightarrow> SmootherCostFunction \<Rightarrow> nat \<Rightarrow> vec2 \<Rightarrow> vec2 \<Rightarrow> vec2 \<Rightarrow> CurvatureComputations \<Rightarrow> fp
     \<Rightarrow> error + CurvatureComputations \<times> (u32 \<times> u32 \<times> fp) option \<times> fp" where
  "compute_cost K s i xi xi_p1 xi_m1 cp r =
     (let r1 = addSmoothingResidual (Wsmooth s) xi xi_p1 xi_m1 r;
          cr = addCurvatureResidual (Wcurve s) (max_turning_radius s) xi xi_p1 xi_m1 cp r1
      in bindE (path_at s i) (\<lambda>xi_original.
           let r3 = addDistanceResidual (Wdist s) xi xi_original (snd cr)
           in bindE (costmap_residual K s xi r3) (\<lambda>(vc, r4). Inr (fst cr, vc, r4))))"

text \<open>The statements under \<^verbatim>\<open>// compute gradient\<close>, between the writes to the array.\<close>

definition compute_gradient ::
  "cost_codes \<Rightarrow> SmootherCostFunction \<Rightarrow> nat \<Rightarrow> vec2 \<Rightarrow> vec2 \<Rightarrow> vec2 \<Rightarrow> CurvatureComputations
     \<Rightarrow> (u32 \<times> u32 \<times> fp) option \<Rightarrow> fp \<times> fp \<Rightarrow> error + fp \<times> fp" where
  "compute_gradient K s i xi xi_p1 xi_m1 cp vc j =
     (let j1 = addSmoothingJacobian (Wsmooth s) xi xi_p1 xi_m1 j;
          j2 = addCurvatureJacobian (Wcurve s) xi xi_p1 xi_m1 cp j1
      in bindE (path_at s i) (\<lambda>xi_original.
           let j3 = addDistanceJacobian (Wdist s) xi xi_original j2
           in case vc of
                None \<Rightarrow> Inr j3
              | Some (mx, my, costmap_cost) \<Rightarrow>
                  addCostJacobian K (costmap s) (Wcost s) mx my costmap_cost j3))"

text \<open>The body of the loop, for the point \<open>i\<close>.\<close>

definition Evaluate_body ::
  "cost_codes \<Rightarrow> SmootherCostFunction \<Rightarrow> fp list \<Rightarrow> nat \<Rightarrow> eval_state \<Rightarrow> error + eval_state" where
  "Evaluate_body K s parameters i st =
     (let x_index = 2 * i; y_index = 2 * i + 1 in
      bindE (write_array x_index (Fin 0) (gradient st)) (\<lambda>g1.
      bindE (write_array y_index (Fin 0) g1) (\<lambda>g2.
      if i < 1 \<or> NumParameters s div 2 - 1 \<le> i then Inr (st\<lparr>gradient := g2\<rparr>)
      else
        bindE (read_point parameters x_index y_index) (\<lambda>xi.
        bindE (read_point parameters (x_index + 2) (y_index + 2)) (\<lambda>xi_p1.
        bindE (read_point parameters (x_index - 2) (y_index - 2)) (\<lambda>xi_m1.
        bindE (compute_cost K s i xi xi_p1 xi_m1 (curvature_params st) (cost_raw st))
          (\<lambda>(cp, vc, r).
            let st1 = st\<lparr>cost_raw := r, curvature_params := cp, gradient := g2\<rparr> in
            if gradient st1 \<noteq> None then
              bindE (write_array x_index (Fin 0) (gradient st1)) (\<lambda>g3.
              bindE (write_array y_index (Fin 0) g3) (\<lambda>g4.
              bindE (compute_gradient K s i xi xi_p1 xi_m1 cp vc
                       (grad_x_raw st1, grad_y_raw st1)) (\<lambda>j.
              bindE (write_array x_index (fst j) g4) (\<lambda>g5.
              bindE (write_array y_index (snd j) g5) (\<lambda>g6.
              Inr (st1\<lparr>grad_x_raw := fst j, grad_y_raw := snd j, gradient := g6\<rparr>))))))
            else Inr st1)))))))"

text \<open>
  The loop: \<^verbatim>\<open>for (uint i = 0; i != NumParameters() / 2; i++)\<close>. The counter counts up
  from 0, so that the test \<^verbatim>\<open>!=\<close> is \<open><\<close>.
\<close>

function Evaluate_loop ::
  "cost_codes \<Rightarrow> SmootherCostFunction \<Rightarrow> fp list \<Rightarrow> nat \<Rightarrow> eval_state \<Rightarrow> error + eval_state" where
  "Evaluate_loop K s parameters i st =
     (if i < NumParameters s div 2 then
        (case Evaluate_body K s parameters i st of
           Inl e \<Rightarrow> Inl e
         | Inr st' \<Rightarrow> Evaluate_loop K s parameters (i + 1) st')
      else Inr st)"
  by pat_completeness auto
termination
  by (relation "measure (\<lambda>(K, s, parameters, i, st). NumParameters s div 2 - i)") auto

text \<open>
  \<^verbatim>\<open>Evaluate\<close> returns the \<^verbatim>\<open>bool\<close> of the C++ function, the cost it stores in
  \<^verbatim>\<open>cost[0]\<close> and the array \<^verbatim>\<open>gradient\<close>.
\<close>

definition Evaluate ::
  "cost_codes \<Rightarrow> SmootherCostFunction \<Rightarrow> fp list \<Rightarrow> fp list option
     \<Rightarrow> error + bool \<times> fp \<times> fp list option" where
  "Evaluate K s parameters gradient0 =
     bindE (Evaluate_loop K s parameters 0
              \<lparr>cost_raw = Fin 0, grad_x_raw = Fin 0, grad_y_raw = Fin 0,
               curvature_params = CurvatureComputations_new, gradient = gradient0\<rparr>)
       (\<lambda>st. Inr (True, cost_raw st, gradient st))"

subsection \<open>The terms of the cost, as the specification words them\<close>

text \<open>
  The residual terms of the point \<open>i\<close>, added to \<open>r\<close>: what the statements under
  \<^verbatim>\<open>// compute cost\<close> add for this point.
\<close>

definition point_residual ::
  "cost_codes \<Rightarrow> SmootherCostFunction \<Rightarrow> fp list \<Rightarrow> nat \<Rightarrow> fp \<Rightarrow> error + fp" where
  "point_residual K s parameters i r =
     (let x_index = 2 * i; y_index = 2 * i + 1 in
      bindE (read_point parameters x_index y_index) (\<lambda>xi.
      bindE (read_point parameters (x_index + 2) (y_index + 2)) (\<lambda>xi_p1.
      bindE (read_point parameters (x_index - 2) (y_index - 2)) (\<lambda>xi_m1.
      bindE (compute_cost K s i xi xi_p1 xi_m1 CurvatureComputations_new r)
        (\<lambda>(cp, vc, r'). Inr r')))))"

text \<open>The sum of the residual terms over the interior points \<open>1, \<dots>, n - 2\<close>, from 0.\<close>

definition interior_cost :: "cost_codes \<Rightarrow> SmootherCostFunction \<Rightarrow> fp list \<Rightarrow> error + fp" where
  "interior_cost K s parameters =
     foldl (\<lambda>acc i. bindE acc (point_residual K s parameters i)) (Inr (Fin 0))
       [1 ..< length (original_path s) - 1]"

text \<open>
  The curvature term of the specification: with \<open>\<Delta> = x\<^sub>i - x\<^sub>i\<^sub>-\<^sub>1\<close> and
  \<open>\<Delta>' = x\<^sub>i\<^sub>+\<^sub>1 - x\<^sub>i\<close>, the segments are degenerate if a norm is below \<open>\<epsilon>\<close>, NaN or Inf;
  the projection is \<open>p = (\<Delta> \<cdot> \<Delta>') / (\<parallel>\<Delta>\<parallel> \<parallel>\<Delta>'\<parallel>)\<close>, clamped to 1 if \<open>|1 - p| < \<epsilon>\<close> or
  \<open>|1 + p| < \<epsilon>\<close>; the turning angle is \<open>\<phi> = acos p\<close>, the curvature \<open>\<kappa> = \<phi> / \<parallel>\<Delta>\<parallel>\<close>
  and the slack \<open>\<kappa> - \<kappa>\<^sub>m\<^sub>a\<^sub>x\<close>.
\<close>

definition degenerate_segments :: "vec2 \<Rightarrow> vec2 \<Rightarrow> vec2 \<Rightarrow> bool" where
  "degenerate_segments x_i x_ip1 x_im1 =
     (let n1 = norm_v (vsub x_i x_im1); n2 = norm_v (vsub x_ip1 x_i)
      in n1 < EPSILON \<or> n2 < EPSILON \<or> isnan n1 \<or> isnan n2 \<or> isinf n1 \<or> isinf n2)"

definition curvature_slack :: "fp \<Rightarrow> vec2 \<Rightarrow> vec2 \<Rightarrow> vec2 \<Rightarrow> fp" where
  "curvature_slack kmax x_i x_ip1 x_im1 =
     (let d = vsub x_i x_im1; d' = vsub x_ip1 x_i;
          p = dot d d' / (norm_v d * norm_v d');
          p' = (if fabs (Fin 1 - p) < EPSILON \<or> fabs (Fin 1 + p) < EPSILON then Fin 1 else p);
          phi = facos p';
          kappa = phi / norm_v d
      in kappa - kmax)"

subsection \<open>Example inputs\<close>

text \<open>
  A 5 by 5 costmap with the cost 100 in every cell, whose \<open>worldToMap\<close> finds no point of
  the world on the map.
\<close>

definition grid5 :: MinimalCostmap where
  "grid5 = \<lparr>sizeX = 5, sizeY = 5, cells = (\<lambda>mx my. 100), worldToMap = (\<lambda>wx wy. None)\<rparr>"

text \<open>A path of three points that turns by a right angle at the origin, smoothed with
  every weight 0 and the curvature bound 0.\<close>

definition corner_parameters :: "fp list" where
  "corner_parameters = [Fin (- 1), Fin 0, Fin 0, Fin 0, Fin 0, Fin 1]"

definition corner_smoother :: SmootherCostFunction where
  "corner_smoother =
     \<lparr>original_path = [(Fin (- 1), Fin 0), (Fin 0, Fin 0), (Fin 0, Fin 1)],
      costmap = grid5,
      Wsmooth = Fin 0, Wcurve = Fin 0, Wcost = Fin 0, Wdist = Fin 0,
      max_turning_radius = Fin 0\<rparr>"

text \<open>The same path with the weight 1 for smoothness only and the curvature bound 100,
  under which the curvature term is off.\<close>

definition bend_smoother :: SmootherCostFunction where
  "bend_smoother =
     \<lparr>original_path = [(Fin (- 1), Fin 0), (Fin 0, Fin 0), (Fin 0, Fin 1)],
      costmap = grid5,
      Wsmooth = Fin 1, Wcurve = Fin 0, Wcost = Fin 0, Wdist = Fin 0,
      max_turning_radius = Fin 100\<rparr>"

text \<open>The straight horizontal path of five points, with the weights 1 for smoothness and
  for the distance to the original path, and 0 for curvature and cost.\<close>

definition straight_parameters :: "fp list" where
  "straight_parameters =
     [Fin 0, Fin 0, Fin 1, Fin 0, Fin 2, Fin 0, Fin 3, Fin 0, Fin 4, Fin 0]"

definition straight_smoother :: SmootherCostFunction where
  "straight_smoother =
     \<lparr>original_path = [(Fin 0, Fin 0), (Fin 1, Fin 0), (Fin 2, Fin 0), (Fin 3, Fin 0), (Fin 4, Fin 0)],
      costmap = grid5,
      Wsmooth = Fin 1, Wcurve = Fin 0, Wcost = Fin 0, Wdist = Fin 1,
      max_turning_radius = Fin 1\<rparr>"

section \<open>Properties of rounding\<close>

lemma pow2_powr: "pow2 k = 2 powr real_of_int k"
  by (simp add: pow2_def powr_real_of_int inverse_eq_divide)

lemma pow2_pos [simp]: "0 < pow2 k"
  by (simp add: pow2_powr)

lemma pow2_nonneg [simp]: "0 \<le> pow2 k"
  by (simp add: pow2_powr)

lemma pow2_neq0 [simp]: "pow2 k \<noteq> 0"
  by (simp add: pow2_powr)

lemma pow2_less_cancel: "pow2 a < pow2 b \<Longrightarrow> a < b"
  by (simp add: pow2_powr)

lemma pow2_add: "pow2 (a + b) = pow2 a * pow2 b"
  by (simp add: pow2_powr powr_add)

lemma pow2_mono: "a \<le> b \<Longrightarrow> pow2 a \<le> pow2 b"
  by (simp add: pow2_powr)

lemma pow2_nat: "0 \<le> k \<Longrightarrow> pow2 k = 2 ^ nat k"
  by (simp add: pow2_def)

lemma rte_of_int [simp]: "rte (of_int n) = n"
  by (simp add: rte_def)

lemma rte_close: "\<bar>of_int (rte z) - z\<bar> \<le> 1 / 2"
  unfolding rte_def Let_def by (auto; linarith)

lemma rte_ge: "of_int n \<le> z \<Longrightarrow> n \<le> rte z"
  unfolding rte_def Let_def by (auto simp: le_floor_iff; linarith)

lemma rte_le: "z \<le> of_int n \<Longrightarrow> rte z \<le> n"
proof -
  assume a: "z \<le> of_int n"
  have f: "\<lfloor>z\<rfloor> \<le> n" using a by (simp add: floor_le_iff)
  show ?thesis
  proof (cases "\<lfloor>z\<rfloor> = n")
    case True
    then have "z = of_int n" using a by linarith
    then show ?thesis by simp
  next
    case False
    with f have "\<lfloor>z\<rfloor> + 1 \<le> n" by simp
    then show ?thesis unfolding rte_def Let_def by auto
  qed
qed

lemma ilog2_eq:
  assumes "pow2 e \<le> \<bar>x\<bar>" and "\<bar>x\<bar> < pow2 (e + 1)"
  shows "ilog2 x = e"
proof -
  have pos: "0 < \<bar>x\<bar>" using assms(1) pow2_pos [of e] by linarith
  have "real_of_int e \<le> log 2 \<bar>x\<bar>"
    using assms(1) pos by (simp add: le_log_iff pow2_powr)
  moreover have "log 2 \<bar>x\<bar> < real_of_int e + 1"
    using assms(2) pos by (simp add: log_less_iff pow2_powr)
  ultimately show ?thesis
    unfolding ilog2_def by linarith
qed

lemma ilog2_bounds:
  assumes "x \<noteq> 0"
  shows "pow2 (ilog2 x) \<le> \<bar>x\<bar>" and "\<bar>x\<bar> < pow2 (ilog2 x + 1)"
proof -
  have pos: "0 < \<bar>x\<bar>" using assms by simp
  have "real_of_int (ilog2 x) \<le> log 2 \<bar>x\<bar>" unfolding ilog2_def by linarith
  then show "pow2 (ilog2 x) \<le> \<bar>x\<bar>"
    using pos by (simp add: le_log_iff pow2_powr)
  have "log 2 \<bar>x\<bar> < real_of_int (ilog2 x) + 1" unfolding ilog2_def by linarith
  then show "\<bar>x\<bar> < pow2 (ilog2 x + 1)"
    using pos by (simp add: log_less_iff pow2_powr)
qed

text \<open>The value of \<open>round64\<close> where the exponent is known.\<close>

lemma round64_eq:
  assumes "pow2 e \<le> \<bar>x\<bar>" and "\<bar>x\<bar> < pow2 (e + 1)" and "- 1022 \<le> e" and "e < 1023"
  shows "round64 x = Fin (of_int (rte (x / pow2 (e - 52))) * pow2 (e - 52))"
proof -
  let ?q = "pow2 (e - 52)"
  let ?y = "of_int (rte (x / ?q)) * ?q"
  have "0 < \<bar>x\<bar>" using assms(1) pow2_pos [of e] by linarith
  then have x0: "x \<noteq> 0" by simp
  have e: "max (ilog2 x) (- 1022) = e"
    using ilog2_eq [OF assms(1,2)] assms(3) by simp
  have "?y - x = (of_int (rte (x / ?q)) - x / ?q) * ?q"
    by (simp add: left_diff_distrib)
  then have "\<bar>?y - x\<bar> = \<bar>of_int (rte (x / ?q)) - x / ?q\<bar> * ?q"
    by (simp add: abs_mult)
  also have "\<dots> \<le> 1 / 2 * ?q"
    by (intro mult_right_mono rte_close) simp
  finally have c: "\<bar>?y - x\<bar> \<le> ?q / 2" by simp
  have "?q \<le> pow2 (e + 1)" by (rule pow2_mono) simp
  moreover have "pow2 (e + 1) \<le> pow2 1023" by (rule pow2_mono) (use assms(4) in simp)
  ultimately have "\<bar>?y\<bar> < 2 * pow2 1023" using c assms(2) by linarith
  also have "2 * pow2 1023 = 2 ^ 1024" by (simp add: pow2_def)
  finally have "\<not> 2 ^ 1024 \<le> \<bar>?y\<bar>" by simp
  then show ?thesis
    unfolding round64_def Let_def e using x0 by simp
qed


text \<open>Integers below \<open>2^53\<close> are exact.\<close>

lemma round64_int:
  assumes "x \<in> \<int>" and "\<bar>x\<bar> < 2 ^ 53"
  shows "round64 x = Fin x"
proof (cases "x = 0")
  case True
  then show ?thesis by (simp add: round64_def)
next
  case False
  from assms(1) obtain n :: int where n: "x = of_int n" by (auto elim: Ints_cases)
  let ?e = "ilog2 x"
  note b = ilog2_bounds [OF False]
  from False n have "1 \<le> \<bar>x\<bar>" by auto
  moreover have "pow2 0 = 1" by (simp add: pow2_def)
  ultimately have "pow2 0 < pow2 (?e + 1)" using b(2) by linarith
  from pow2_less_cancel [OF this] have e0: "0 \<le> ?e" by simp
  have "pow2 53 = 2 ^ 53" by (simp add: pow2_def)
  then have "pow2 ?e < pow2 53" using b(1) assms(2) by linarith
  from pow2_less_cancel [OF this] have e52: "?e \<le> 52" by simp
  define k where "k = nat (52 - ?e)"
  have q: "pow2 (?e - 52) = 1 / 2 ^ k"
  proof (cases "?e = 52")
    case True
    then show ?thesis by (simp add: pow2_def k_def)
  next
    case False
    with e52 have "\<not> 0 \<le> ?e - 52" by simp
    then show ?thesis by (simp add: pow2_def k_def)
  qed
  have "x / pow2 (?e - 52) = of_int (n * 2 ^ k)"
    unfolding q by (simp add: n)
  then have "rte (x / pow2 (?e - 52)) = n * 2 ^ k"
    by (simp only: rte_of_int)
  then have "of_int (rte (x / pow2 (?e - 52))) * pow2 (?e - 52) = x"
    unfolding q by (simp add: n)
  with round64_eq [OF b] e0 e52 show ?thesis by simp
qed

text \<open>Rounding keeps a value within \<open>[1, 2]\<close>, and keeps the sign.\<close>

lemma round64_1_2:
  assumes "1 \<le> x" and "x \<le> 2"
  shows "\<exists>y. round64 x = Fin y \<and> 1 \<le> y \<and> y \<le> 2"
proof (cases "x = 2")
  case True
  then show ?thesis using round64_int [of 2] by simp
next
  case False
  with assms have x: "1 \<le> x" "x < 2" by simp_all
  have q: "pow2 (- 52) = 1 / 2 ^ 52" by (simp add: pow2_def)
  have p: "pow2 0 = 1" "pow2 (0 + 1) = 2" by (simp_all add: pow2_def)
  have "round64 x = Fin (of_int (rte (x / pow2 (0 - 52))) * pow2 (0 - 52))"
    using x p by (intro round64_eq) simp_all
  then have r: "round64 x = Fin (of_int (rte (x * 2 ^ 52)) / 2 ^ 52)"
    by (simp add: q)
  have "of_int (2 ^ 52) \<le> x * 2 ^ 52" using x by simp
  then have lo: "2 ^ 52 \<le> rte (x * 2 ^ 52)" by (rule rte_ge)
  have "x * 2 ^ 52 \<le> of_int (2 ^ 53)" using x by simp
  then have hi: "rte (x * 2 ^ 52) \<le> 2 ^ 53" by (rule rte_le)
  from lo have lo': "(2 :: real) ^ 52 \<le> of_int (rte (x * 2 ^ 52))"
    by (metis of_int_le_iff of_int_numeral of_int_power)
  from hi have hi': "of_int (rte (x * 2 ^ 52)) \<le> (2 :: real) ^ 53"
    by (metis of_int_le_iff of_int_numeral of_int_power)
  show ?thesis
  proof (intro exI conjI)
    show "round64 x = Fin (of_int (rte (x * 2 ^ 52)) / 2 ^ 52)" by (rule r)
    show "1 \<le> real_of_int (rte (x * 2 ^ 52)) / 2 ^ 52" using lo' by simp
    show "real_of_int (rte (x * 2 ^ 52)) / 2 ^ 52 \<le> 2" using hi' by simp
  qed
qed

lemma round64_nonpos:
  assumes "x \<le> 0"
  shows "round64 x = NInf \<or> (\<exists>y. round64 x = Fin y \<and> y \<le> 0)"
proof (cases "x = 0")
  case True
  then show ?thesis by (simp add: round64_def)
next
  case False
  let ?q = "pow2 (max (ilog2 x) (- 1022) - 52)"
  from assms have "x / ?q \<le> of_int 0" by (simp add: divide_le_0_iff)
  then have "rte (x / ?q) \<le> 0" by (rule rte_le)
  then have "of_int (rte (x / ?q)) * ?q \<le> 0"
    by (simp add: mult_le_0_iff)
  with False assms show ?thesis
    unfolding round64_def Let_def by auto
qed

text \<open>Powers of two in units of the spacing.\<close>

lemma pow2_le_cancel: "pow2 a \<le> pow2 b \<Longrightarrow> a \<le> b"
  by (simp add: pow2_powr)

lemma pow2_split:
  assumes "e - 52 \<le> m"
  shows "pow2 m = of_int (2 ^ nat (m - e + 52)) * pow2 (e - 52)"
proof -
  have "pow2 m = pow2 ((m - e + 52) + (e - 52))" by simp
  also have "\<dots> = pow2 (m - e + 52) * pow2 (e - 52)" by (rule pow2_add)
  also have "pow2 (m - e + 52) = of_int (2 ^ nat (m - e + 52))"
    using assms by (simp add: pow2_def)
  finally show ?thesis .
qed

text \<open>Rounding does not cross a power of two.\<close>

lemma round64_bounded:
  assumes "\<bar>x\<bar> \<le> pow2 k" and "- 1074 \<le> k" and "k \<le> 1023"
  shows "\<exists>y. round64 x = Fin y \<and> \<bar>y\<bar> \<le> pow2 k"
proof (cases "x = 0")
  case True
  then show ?thesis by (simp add: round64_def)
next
  case False
  define e where "e = max (ilog2 x) (- 1022)"
  define q where "q = pow2 (e - 52)"
  define n where "n = nat (k - e + 52)"
  define r where "r = rte (x / q)"
  note b = ilog2_bounds [OF False]
  have "pow2 (ilog2 x) \<le> pow2 k" using b(1) assms(1) by linarith
  then have "ilog2 x \<le> k" by (rule pow2_le_cancel)
  then have ek: "e - 52 \<le> k" using assms(2) by (simp add: e_def)
  have qpos: "0 < q" by (simp add: q_def)
  have kq: "pow2 k = of_int (2 ^ n) * q"
    unfolding n_def q_def using ek by (rule pow2_split)
  have "x \<le> of_int (2 ^ n) * q" using assms(1) kq by linarith
  then have "x / q \<le> of_int (2 ^ n)" using qpos by (simp add: pos_divide_le_eq)
  then have hi: "r \<le> 2 ^ n" unfolding r_def by (rule rte_le)
  have "- (of_int (2 ^ n) * q) \<le> x" using assms(1) kq by linarith
  then have "of_int (- (2 ^ n)) * q \<le> x" by (simp only: of_int_minus mult_minus_left)
  then have "of_int (- (2 ^ n)) \<le> x / q" using qpos by (simp only: pos_le_divide_eq)
  then have lo: "- (2 ^ n) \<le> r" unfolding r_def by (rule rte_ge)
  have "\<bar>r\<bar> \<le> 2 ^ n" using hi lo by simp
  then have "\<bar>real_of_int r\<bar> \<le> of_int (2 ^ n)"
    by (metis of_int_abs of_int_le_iff)
  then have "\<bar>of_int r * q\<bar> \<le> of_int (2 ^ n) * q"
    using qpos by (simp add: abs_mult)
  then have y: "\<bar>of_int r * q\<bar> \<le> pow2 k" by (simp only: kq)
  have "pow2 k \<le> pow2 1023" using assms(3) by (rule pow2_mono)
  moreover have "pow2 1023 < 2 ^ 1024" by (simp add: pow2_def)
  ultimately have f: "\<not> 2 ^ 1024 \<le> \<bar>of_int r * q\<bar>" using y by linarith
  have "round64 x = Fin (of_int r * q)"
    unfolding round64_def Let_def using False f [unfolded r_def q_def e_def] 
    by (simp add: r_def q_def e_def)
  with y show ?thesis by blast
qed

lemma round64_lower:
  assumes "pow2 k \<le> x" and "- 1074 \<le> k"
  shows "round64 x = PInf \<or> (\<exists>y. round64 x = Fin y \<and> pow2 k \<le> y)"
proof -
  have xpos: "0 < x" using assms(1) pow2_pos [of k] by linarith
  then have x0: "x \<noteq> 0" by simp
  define e where "e = max (ilog2 x) (- 1022)"
  define q where "q = pow2 (e - 52)"
  define m where "m = (if ilog2 x < - 1022 then k else e)"
  define n where "n = nat (m - e + 52)"
  define r where "r = rte (x / q)"
  note b = ilog2_bounds [OF x0]
  have "pow2 k < pow2 (ilog2 x + 1)" using b(2) assms(1) xpos by linarith
  from pow2_less_cancel [OF this] have ki: "k \<le> ilog2 x" by simp
  have m1: "pow2 m \<le> x"
    using assms(1) b(1) xpos by (simp add: m_def e_def max_def)
  have "k \<le> m" using ki by (simp add: m_def e_def)
  then have m2: "pow2 k \<le> pow2 m" by (rule pow2_mono)
  have m3: "e - 52 \<le> m" using assms(2) by (simp add: m_def e_def)
  have qpos: "0 < q" by (simp add: q_def)
  have mq: "pow2 m = of_int (2 ^ n) * q"
    unfolding n_def q_def using m3 by (rule pow2_split)
  have "of_int (2 ^ n) * q \<le> x" using m1 mq by linarith
  then have "of_int (2 ^ n) \<le> x / q" using qpos by (simp only: pos_le_divide_eq)
  then have "2 ^ n \<le> r" unfolding r_def by (rule rte_ge)
  then have "real_of_int (2 ^ n) \<le> of_int r" by (simp only: of_int_le_iff)
  then have "of_int (2 ^ n) * q \<le> of_int r * q" using qpos by (simp only: mult_le_cancel_right_pos)
  then have y: "pow2 k \<le> of_int r * q" using m2 mq by linarith
  have "round64 x = (if 2 ^ 1024 \<le> \<bar>of_int r * q\<bar> then PInf else Fin (of_int r * q))"
    unfolding round64_def Let_def using xpos by (simp add: r_def q_def e_def)
  with y show ?thesis by auto
qed

text \<open>A double other than 0 has magnitude \<open>2 ^ - 1074\<close> at least.\<close>

lemma round64_granular:
  assumes "round64 x = Fin y" and "y \<noteq> 0"
  shows "pow2 (- 1074) \<le> \<bar>y\<bar>"
proof -
  define e where "e = max (ilog2 x) (- 1022)"
  define q where "q = pow2 (e - 52)"
  define r where "r = rte (x / q)"
  have qpos: "0 < q" by (simp add: q_def)
  have "y = of_int r * q"
    using assms unfolding round64_def Let_def r_def q_def e_def
    by (auto split: if_splits)
  with assms(2) have "r \<noteq> 0" by auto
  then have "1 \<le> \<bar>r\<bar>" by simp
  then have "1 \<le> \<bar>real_of_int r\<bar>" by linarith
  then have "1 * q \<le> \<bar>real_of_int r\<bar> * q" using qpos by (simp only: mult_le_cancel_right_pos)
  then have "q \<le> \<bar>y\<bar>" using qpos \<open>y = of_int r * q\<close> by (simp add: abs_mult)
  moreover have "pow2 (- 1074) \<le> q" unfolding q_def by (rule pow2_mono) (simp add: e_def)
  ultimately show ?thesis by linarith
qed

text \<open>The value of \<^verbatim>\<open>EPSILON\<close>.\<close>

lemma EPSILON_value: "EPSILON = Fin (7378697629483821 / 2 ^ 66)"
proof -
  have "round64 (1 / 10000) =
      Fin (of_int (rte ((1 / 10000) / pow2 (- 14 - 52))) * pow2 (- 14 - 52))"
    by (intro round64_eq) (simp_all add: pow2_def)
  then show ?thesis by (simp add: EPSILON_def pow2_def rte_def Let_def)
qed

section \<open>Properties of Node2D\<close>

lemma feq_fp_of_u8: "feq (fp_of_u8 a) (fp_of_u8 b) = (a = b)"
  by (simp add: fp_of_u8_def word_unat_eq_iff del: of_nat_unat)

lemma isNodeValid_reset:
  "isNodeValid K (reset node c idx) traverse_unknown =
     (if c = OCCUPIED K \<or> c = INSCRIBED K then False
      else if c = UNKNOWN K \<and> \<not> traverse_unknown then False
      else True)"
  by (simp add: isNodeValid_def reset_def getCost_node_def feq_fp_of_u8)

text \<open>
  C1. For every 8-bit cost value \<open>c\<close> (the cell cost a node holds after it is reset with
  \<open>c\<close>) and every \<open>traverse_unknown\<close>, \<open>isNodeValid\<close> is false if \<open>c\<close> is OCCUPIED or
  INSCRIBED, false if \<open>c\<close> is UNKNOWN and \<open>traverse_unknown\<close> is false, and true for
  every other cost value. Where the three reserved codes lie above MAX_NON_OBSTACLE, every
  cost in \<open>[FREE + 1, MAX_NON_OBSTACLE]\<close> is valid.
\<close>

theorem isNodeValid_cases:
  "isNodeValid K (reset node c idx) traverse_unknown =
     (if c = OCCUPIED K \<or> c = INSCRIBED K then False
      else if c = UNKNOWN K \<and> \<not> traverse_unknown then False
      else True) \<and>
   (FREE K < c' \<and> c' \<le> MAX_NON_OBSTACLE K \<and> MAX_NON_OBSTACLE K < INSCRIBED K \<and>
    MAX_NON_OBSTACLE K < OCCUPIED K \<and> MAX_NON_OBSTACLE K < UNKNOWN K \<longrightarrow>
      isNodeValid K (reset node c' idx) traverse_unknown)"
  by (auto simp: isNodeValid_reset)

theorem isNodeValid_cases_witness:
  "\<not> isNodeValid example_codes (reset (Node2D_new 0 0) 254 7) True \<and>
   \<not> isNodeValid example_codes (reset (Node2D_new 0 0) 253 7) True \<and>
   \<not> isNodeValid example_codes (reset (Node2D_new 0 0) 255 7) False \<and>
   isNodeValid example_codes (reset (Node2D_new 0 0) 255 7) True \<and>
   isNodeValid example_codes (reset (Node2D_new 0 0) 0 7) False \<and>
   FREE example_codes < 100 \<and> 100 \<le> MAX_NON_OBSTACLE example_codes \<and>
   MAX_NON_OBSTACLE example_codes < INSCRIBED example_codes \<and>
   MAX_NON_OBSTACLE example_codes < OCCUPIED example_codes \<and>
   MAX_NON_OBSTACLE example_codes < UNKNOWN example_codes \<and>
   isNodeValid example_codes (reset (Node2D_new 0 0) 100 7) False"
  using isNodeValid_cases [where K = example_codes and node = "Node2D_new 0 0" and idx = 7
      and c' = 100]
  by (simp add: example_codes_def)

text \<open>
  C8, as the code has it. After \<open>reset cost index\<close> the parent is none, the accumulated
  cost is \<^verbatim>\<open>std::numeric_limits<float>::max()\<close>, the largest finite \<^verbatim>\<open>float\<close>, the
  cell cost is the cost passed in, the index is the index passed in, and both flags are
  false.
\<close>

theorem reset_fields:
  "parent (reset node cost idx) = None \<and>
   accumulated_cost (reset node cost idx) = FLT_MAX \<and>
   isfinite (accumulated_cost (reset node cost idx)) \<and>
   cell_cost (reset node cost idx) = fp_of_u8 cost \<and>
   index (reset node cost idx) = idx \<and>
   was_visited (reset node cost idx) = False \<and>
   is_queued (reset node cost idx) = False"
  by (simp add: reset_def FLT_MAX_def)

text \<open>The accumulated cost after a reset is a finite value, not an infinity.\<close>

theorem reset_accumulated_cost_not_infinite:
  "\<not> isinf (accumulated_cost (reset (Node2D_new 0 0) 0 0)) \<and>
   accumulated_cost (reset (Node2D_new 0 0) 0 0) \<noteq> PInf \<and>
   accumulated_cost (reset (Node2D_new 0 0) 0 0) < PInf"
  by (simp add: reset_def FLT_MAX_def)

lemma getNeighbors_loop_spec:
  "i \<le> length offsets \<Longrightarrow>
   (case getNeighbors_loop offsets node_i chk i (nbr, g, out) of
      (nbr', g', out') \<Rightarrow> (g', out')) =
     (case neighbors_spec chk node_i (drop i offsets) nbr g of
        (g', em) \<Rightarrow> (g', out @ em))"
proof (induction k \<equiv> "length offsets - i" arbitrary: i nbr g out)
  case 0
  then show ?case by simp
next
  case (Suc k)
  then have lt: "i < length offsets" and k: "k = length offsets - (i + 1)"
    and le: "i + 1 \<le> length offsets" by simp_all
  have d: "drop i offsets = offsets ! i # drop (Suc i) offsets"
    using lt by (simp add: Cons_nth_drop_Suc)
  show ?case
  proof (cases "0 < sint (node_i + offsets ! i)")
    case False
    with lt Suc.hyps(1)[OF k le, of nbr g out] show ?thesis
      by (simp add: d)
  next
    case pos: True
    obtain ok nbr' g' where c: "chk (node_i + offsets ! i) nbr g = (ok, nbr', g')"
      by (cases "chk (node_i + offsets ! i) nbr g") auto
    show ?thesis
      using lt pos c Suc.hyps(1)[OF k le, of nbr' g' "if ok then out @ [nbr'] else out"]
      by (simp add: d split: prod.splits)
  qed
qed

lemma neighbors_spec_pure:
  "neighbors_spec (\<lambda>j nbr g. (accepts j, pooled j, g)) node_index ds nbr g =
     (g, map pooled (filter (\<lambda>j. 0 < sint j \<and> accepts j) (map (\<lambda>d. node_index + d) ds)))"
  by (induction ds arbitrary: nbr) (auto simp: Let_def)

text \<open>
  C7. \<open>getNeighbors\<close> goes through the offset table in its stored order and emits the
  checker's out-node for \<open>j = index + d\<close> exactly when \<open>j > 0\<close> and the checker returns
  true for \<open>j\<close>: it appends to the vector what the enumeration of the specification
  emits. For a checker that answers \<open>accepts j\<close> with the pooled node \<open>pooled j\<close>, the
  emitted nodes are the pooled nodes of the candidates \<open>j > 0\<close> with \<open>accepts j\<close>, in
  table order; a candidate that is 0 or negative is never emitted.
\<close>

theorem getNeighbors_enumerates:
  "getNeighbors offsets node chk neighbor0 g out =
     (case neighbors_spec chk (index node) offsets neighbor0 g of
        (g', emitted) \<Rightarrow> (g', out @ emitted)) \<and>
   getNeighbors offsets node (\<lambda>j nbr g. (accepts j, pooled j, g)) neighbor1 g1 out1 =
     (g1, out1 @ map pooled (filter (\<lambda>j. 0 < sint j \<and> accepts j)
                               (map (\<lambda>d. index node + d) offsets)))"
proof -
  have *: "getNeighbors offs node c n0 h ns =
     (case neighbors_spec c (index node) offs n0 h of (g', emitted) \<Rightarrow> (g', ns @ emitted))"
    for offs and c :: "('x, 'y) validity_checker" and n0 h ns
    using getNeighbors_loop_spec [of 0 offs "index node" c n0 h ns]
    by (simp add: getNeighbors_def split: prod.splits)
  show ?thesis
    by (simp add: * neighbors_spec_pure)
qed

theorem getNeighbors_enumerates_witness:
  "getNeighbors [- 1, 1, - 5, 5] (Node2D_new 0 1)
     (\<lambda>j (nbr :: nat) (g :: unit). (j \<noteq> 6, unat j, g)) 0 () [] = ((), [2])"
  using getNeighbors_enumerates [of "[- 1, 1, - 5, 5]" "Node2D_new 0 1"
      "\<lambda>j (nbr :: nat) (g :: unit). (j \<noteq> 6, unat j, g)" 0 "()" "[]"
      "\<lambda>j. j \<noteq> 6" unat 0 "()" "[]"]
  by (simp add: Node2D_new_def)

section \<open>Properties of the smoothing and curvature terms\<close>

text \<open>
  The smoothing term is written in the expanded form of \<open>\<parallel>x\<^sub>i\<^sub>+\<^sub>1 - 2 x\<^sub>i + x\<^sub>i\<^sub>-\<^sub>1\<parallel>\<^sup>2\<close>: six dot
  products, combined with the factors 1, -4, 2, 4, -4, 1. Each operation rounds. Where
  every intermediate result is an integer below \<open>2\<^sup>5\<^sup>3\<close> in magnitude, no operation rounds,
  and the expanded form has the value of the squared norm.
\<close>

text \<open>Integer results below \<open>2^53\<close> in magnitude are exact.\<close>

lemma fp_plus_exact:
  "a \<in> \<int> \<Longrightarrow> b \<in> \<int> \<Longrightarrow> - (2 ^ 53) < a + b \<Longrightarrow> a + b < 2 ^ 53 \<Longrightarrow> Fin a + Fin b = Fin (a + b)"
  by (simp add: round64_int abs_less_iff)

lemma fp_minus_exact:
  "a \<in> \<int> \<Longrightarrow> b \<in> \<int> \<Longrightarrow> - (2 ^ 53) < a - b \<Longrightarrow> a - b < 2 ^ 53 \<Longrightarrow> Fin a - Fin b = Fin (a - b)"
  by (simp add: minus_fp_def round64_int abs_less_iff)












lemma fp_add_commute: "(a :: fp) + b = b + a"
  by (cases a; cases b) (simp_all add: add.commute)

lemma curvature_cases:
  "addCurvatureResidual w kmax xi xp xm cp r = (cp', r') \<Longrightarrow>
   (if degenerate_segments xi xp xm \<or> curvature_slack kmax xi xp xm \<le> EPSILON
    then r' = r \<and> \<not> isValid cp' \<and>
         addCurvatureJacobian w xi xp xm cp' (jx, jy) = (jx, jy)
    else r' = r + w * curvature_slack kmax xi xp xm
                    * curvature_slack kmax xi xp xm \<and>
         isValid cp')"
  by (auto simp: addCurvatureResidual_def addCurvatureJacobian_def degenerate_segments_def
      curvature_slack_def isValid_def Let_def vsub_def fp_add_commute [of "Fin 1"]
      split: if_splits)

text \<open>
  C4. If a segment norm is below \<open>\<epsilon>\<close>, NaN or Inf, or if the slack is at most \<open>\<epsilon>\<close>, the
  curvature term adds nothing to the cost, marks the cached computation invalid, and
  \<open>addCurvatureJacobian\<close> adds nothing to the gradient; otherwise the term adds
  \<open>w (\<kappa>\<^sub>i - \<kappa>\<^sub>m\<^sub>a\<^sub>x)\<^sup>2\<close> to the cost and the cached computation is valid.
\<close>

theorem curvature_term_one_sided:
  "addCurvatureResidual w kmax xi xp xm cp r = (cp', r') \<Longrightarrow>
   (if degenerate_segments xi xp xm \<or> curvature_slack kmax xi xp xm \<le> EPSILON
    then r' = r \<and> \<not> isValid cp' \<and>
         addCurvatureJacobian w xi xp xm cp' (jx, jy) = (jx, jy)
    else r' = r + w * curvature_slack kmax xi xp xm
                    * curvature_slack kmax xi xp xm \<and>
         isValid cp')"
  by (rule curvature_cases)

text \<open>A NaN operand makes the result NaN.\<close>

lemma NaN_arith [simp]:
  "x + NaN = NaN" "x * NaN = NaN" "x / NaN = NaN" "x - NaN = NaN" "NaN - x = NaN"
  by (cases x; simp add: minus_fp_def)+

text \<open>
  The curvature term at the corner \<open>(-1, 0), (0, 0), (0, 1)\<close>: the segments have the norm 1,
  the projection is 0, the turning angle and the curvature are the double nearest to
  \<open>\<pi> / 2\<close>, which lies between 1 and 2.
\<close>

lemma corner_not_degenerate:
  "\<not> degenerate_segments (Fin 0, Fin 0) (Fin 0, Fin 1) (Fin (- 1), Fin 0)"
  by (simp add: degenerate_segments_def Let_def vsub_def dot_def norm_v_def squaredNorm_def
      EPSILON_value minus_fp_def round64_int)

lemma corner_slack_eq:
  "curvature_slack kmax (Fin 0, Fin 0) (Fin 0, Fin 1) (Fin (- 1), Fin 0) =
     round64 (pi / 2) / Fin 1 - kmax"
  by (simp add: curvature_slack_def Let_def vsub_def dot_def norm_v_def squaredNorm_def
      EPSILON_value minus_fp_def round64_int)

lemma corner_curvature:
  "\<exists>k. round64 (pi / 2) / Fin 1 = Fin k \<and> 1 \<le> k \<and> k \<le> 2"
proof -
  have "1 \<le> pi / 2" "pi / 2 \<le> 2" using pi_ge_two pi_less_4 by simp_all
  from round64_1_2 [OF this] obtain y where y: "round64 (pi / 2) = Fin y" "1 \<le> y" "y \<le> 2"
    by blast
  from round64_1_2 [OF y(2,3)] y(1) show ?thesis by simp
qed

lemma corner_slack:
  "\<exists>s. curvature_slack (Fin 0) (Fin 0, Fin 0) (Fin 0, Fin 1) (Fin (- 1), Fin 0) = Fin s \<and>
       1 \<le> s \<and> s \<le> 2"
proof -
  from corner_curvature obtain k where k: "round64 (pi / 2) / Fin 1 = Fin k" "1 \<le> k" "k \<le> 2"
    by blast
  from round64_1_2 [OF k(2,3)] k(1) show ?thesis
    by (simp add: corner_slack_eq minus_fp_def)
qed

lemma corner_slack_large:
  "\<not> curvature_slack (Fin 0) (Fin 0, Fin 0) (Fin 0, Fin 1) (Fin (- 1), Fin 0) \<le> EPSILON"
  using corner_slack by (auto simp: EPSILON_value)

lemma bend_slack_small:
  "curvature_slack (Fin 100) (Fin 0, Fin 0) (Fin 0, Fin 1) (Fin (- 1), Fin 0) \<le> EPSILON"
proof -
  from corner_curvature obtain k where k: "round64 (pi / 2) / Fin 1 = Fin k" "1 \<le> k" "k \<le> 2"
    by blast
  then have "k + - 100 \<le> 0" by simp
  from round64_nonpos [OF this] k(1) show ?thesis
    by (auto simp: corner_slack_eq minus_fp_def EPSILON_value)
qed

lemma straight_slack_small:
  "curvature_slack (Fin 1) (Fin (1 + x), Fin 0) (Fin (2 + x), Fin 0) (Fin x, Fin 0) \<le> EPSILON"
  by (simp add: curvature_slack_def Let_def vsub_def dot_def norm_v_def squaredNorm_def
      EPSILON_value minus_fp_def round64_int)

lemmas curvature_cases_at = curvature_cases [OF surjective_pairing]

text \<open>What the curvature term does in the three examples.\<close>

lemma corner_residual:
  "snd (addCurvatureResidual (Fin 0) (Fin 0) (Fin 0, Fin 0) (Fin 0, Fin 1) (Fin (- 1), Fin 0)
          cp (Fin 0)) = Fin 0"
  "valid (fst (addCurvatureResidual w (Fin 0) (Fin 0, Fin 0) (Fin 0, Fin 1) (Fin (- 1), Fin 0)
          cp r))"
proof -
  from corner_slack obtain s where
    s: "curvature_slack (Fin 0) (Fin 0, Fin 0) (Fin 0, Fin 1) (Fin (- 1), Fin 0) = Fin s"
    by blast
  show "snd (addCurvatureResidual (Fin 0) (Fin 0) (Fin 0, Fin 0) (Fin 0, Fin 1)
          (Fin (- 1), Fin 0) cp (Fin 0)) = Fin 0"
    using curvature_cases_at [where w = "Fin 0" and kmax = "Fin 0" and xi = "(Fin 0, Fin 0)"
        and xp = "(Fin 0, Fin 1)" and xm = "(Fin (- 1), Fin 0)" and cp = cp and r = "Fin 0"]
      corner_not_degenerate corner_slack_large
    by (simp add: s round64_int)
  show "valid (fst (addCurvatureResidual w (Fin 0) (Fin 0, Fin 0) (Fin 0, Fin 1)
          (Fin (- 1), Fin 0) cp r))"
    using curvature_cases_at [where w = w and kmax = "Fin 0" and xi = "(Fin 0, Fin 0)"
        and xp = "(Fin 0, Fin 1)" and xm = "(Fin (- 1), Fin 0)" and cp = cp and r = r]
      corner_not_degenerate corner_slack_large
    by (simp add: isValid_def)
qed

lemma bend_residual:
  "snd (addCurvatureResidual w (Fin 100) (Fin 0, Fin 0) (Fin 0, Fin 1) (Fin (- 1), Fin 0)
          cp r) = r"
  "\<not> valid (fst (addCurvatureResidual w (Fin 100) (Fin 0, Fin 0) (Fin 0, Fin 1)
          (Fin (- 1), Fin 0) cp r))"
  using curvature_cases_at [where w = w and kmax = "Fin 100" and xi = "(Fin 0, Fin 0)"
      and xp = "(Fin 0, Fin 1)" and xm = "(Fin (- 1), Fin 0)" and cp = cp and r = r]
    bend_slack_small
  by (simp_all add: isValid_def)

lemma straight_residual:
  "snd (addCurvatureResidual w (Fin 1) (Fin (1 + x), Fin 0) (Fin (2 + x), Fin 0) (Fin x, Fin 0)
          cp r) = r"
  "\<not> valid (fst (addCurvatureResidual w (Fin 1) (Fin (1 + x), Fin 0) (Fin (2 + x), Fin 0)
          (Fin x, Fin 0) cp r))"
  using curvature_cases_at [where w = w and kmax = "Fin 1" and xi = "(Fin (1 + x), Fin 0)"
      and xp = "(Fin (2 + x), Fin 0)" and xm = "(Fin x, Fin 0)" and cp = cp and r = r]
    straight_slack_small [of x]
  by (simp_all add: isValid_def)

theorem curvature_term_one_sided_witness:
  "curvature_slack (Fin 1) (Fin 1, Fin 0) (Fin 2, Fin 0) (Fin 0, Fin 0) \<le> EPSILON \<and>
   snd (addCurvatureResidual (Fin 3) (Fin 1) (Fin 1, Fin 0) (Fin 2, Fin 0) (Fin 0, Fin 0)
          CurvatureComputations_new (Fin 5)) = Fin 5 \<and>
   addCurvatureJacobian (Fin 3) (Fin 1, Fin 0) (Fin 2, Fin 0) (Fin 0, Fin 0)
     (fst (addCurvatureResidual (Fin 3) (Fin 1) (Fin 1, Fin 0) (Fin 2, Fin 0) (Fin 0, Fin 0)
            CurvatureComputations_new (Fin 5))) (Fin 6, Fin 7) = (Fin 6, Fin 7) \<and>
   \<not> degenerate_segments (Fin 0, Fin 0) (Fin 0, Fin 1) (Fin (- 1), Fin 0) \<and>
   \<not> curvature_slack (Fin 0) (Fin 0, Fin 0) (Fin 0, Fin 1) (Fin (- 1), Fin 0) \<le> EPSILON \<and>
   isValid (fst (addCurvatureResidual (Fin 3) (Fin 0) (Fin 0, Fin 0) (Fin 0, Fin 1)
                   (Fin (- 1), Fin 0) CurvatureComputations_new (Fin 5))) \<and>
   snd (addCurvatureResidual (Fin 3) (Fin 0) (Fin 0, Fin 0) (Fin 0, Fin 1) (Fin (- 1), Fin 0)
          CurvatureComputations_new (Fin 5)) =
     Fin 5 + Fin 3 * curvature_slack (Fin 0) (Fin 0, Fin 0) (Fin 0, Fin 1) (Fin (- 1), Fin 0)
                   * curvature_slack (Fin 0) (Fin 0, Fin 0) (Fin 0, Fin 1) (Fin (- 1), Fin 0)"
proof -
  have le1: "curvature_slack (Fin 1) (Fin 1, Fin 0) (Fin 2, Fin 0) (Fin 0, Fin 0) \<le> EPSILON"
    using straight_slack_small [of 0] by simp
  note le2 = corner_slack_large and d2 = corner_not_degenerate
  let ?a = "addCurvatureResidual (Fin 3) (Fin 1) (Fin 1, Fin 0) (Fin 2, Fin 0) (Fin 0, Fin 0)
              CurvatureComputations_new (Fin 5)"
  let ?b = "addCurvatureResidual (Fin 3) (Fin 0) (Fin 0, Fin 0) (Fin 0, Fin 1) (Fin (- 1), Fin 0)
              CurvatureComputations_new (Fin 5)"
  show ?thesis
    using le1 le2 d2
      curvature_term_one_sided [where w = "Fin 3" and kmax = "Fin 1" and xi = "(Fin 1, Fin 0)"
        and xp = "(Fin 2, Fin 0)" and xm = "(Fin 0, Fin 0)"
        and cp = CurvatureComputations_new and r = "Fin 5" and cp' = "fst ?a" and r' = "snd ?a"
        and jx = "Fin 6" and jy = "Fin 7"]
      curvature_term_one_sided [where w = "Fin 3" and kmax = "Fin 0" and xi = "(Fin 0, Fin 0)"
        and xp = "(Fin 0, Fin 1)" and xm = "(Fin (- 1), Fin 0)"
        and cp = CurvatureComputations_new and r = "Fin 5" and cp' = "fst ?b" and r' = "snd ?b"
        and jx = "Fin 6" and jy = "Fin 7"]
    by simp
qed

section \<open>Properties of Evaluate\<close>

lemma bindE_Inr_iff: "bindE m f = Inr y \<longleftrightarrow> (\<exists>x. m = Inr x \<and> f x = Inr y)"
  by (cases m) auto

lemma write_array_Inr:
  "write_array k v g = Inr g' \<longleftrightarrow> (\<exists>a. g = Some a \<and> k < length a \<and> g' = Some (a[k := v]))"
  by (auto simp: write_array_def split: option.splits)

text \<open>The cost that the curvature term returns does not depend on the cache it is given.\<close>

lemma addCurvatureResidual_snd:
  "snd (addCurvatureResidual w kmax pt pt_p pt_m cp r) =
   snd (addCurvatureResidual w kmax pt pt_p pt_m cp' r)"
  by (simp add: addCurvatureResidual_def Let_def)

lemma compute_cost_cost:
  "compute_cost K s i xi xi_p1 xi_m1 cp r = Inr (cp1, vc, r') \<Longrightarrow>
   \<exists>cp2. compute_cost K s i xi xi_p1 xi_m1 cp' r = Inr (cp2, vc, r')"
  unfolding compute_cost_def Let_def
  by (auto simp: bindE_Inr_iff addCurvatureResidual_snd [of _ _ _ _ _ cp' _ cp])

text \<open>What one iteration does to the gradient array and to the cost.\<close>

lemma Evaluate_body_gradient:
  assumes "Evaluate_body K s ps i st = Inr st'"
  shows "\<exists>a a'. gradient st = Some a \<and> gradient st' = Some a' \<and> length a' = length a \<and>
           2 * i + 1 < length a \<and>
           (\<forall>k. k \<noteq> 2 * i \<and> k \<noteq> 2 * i + 1 \<longrightarrow> a' ! k = a ! k) \<and>
           (i < 1 \<or> NumParameters s div 2 - 1 \<le> i \<longrightarrow>
              a' ! (2 * i) = Fin 0 \<and> a' ! (2 * i + 1) = Fin 0 \<and> cost_raw st' = cost_raw st)"
  using assms unfolding Evaluate_body_def Let_def
  by (auto simp: bindE_Inr_iff write_array_Inr split: if_splits prod.splits)

lemma Evaluate_body_cost:
  assumes "Evaluate_body K s ps i st = Inr st'"
    and "\<not> (i < 1 \<or> NumParameters s div 2 - 1 \<le> i)"
  shows "point_residual K s ps i (cost_raw st) = Inr (cost_raw st')"
proof -
  from assms obtain xi xi_p1 xi_m1 cp vc r where
    rd: "read_point ps (2 * i) (2 * i + 1) = Inr xi"
        "read_point ps (2 * i + 2) (2 * i + 1 + 2) = Inr xi_p1"
        "read_point ps (2 * i - 2) (2 * i + 1 - 2) = Inr xi_m1" and
    cc: "compute_cost K s i xi xi_p1 xi_m1 (curvature_params st) (cost_raw st) = Inr (cp, vc, r)" and
    r: "cost_raw st' = r"
    unfolding Evaluate_body_def Let_def
    by (auto simp: bindE_Inr_iff split: if_splits prod.splits)
  from compute_cost_cost [OF cc, of CurvatureComputations_new] obtain cp2 where
    "compute_cost K s i xi xi_p1 xi_m1 CurvatureComputations_new (cost_raw st) = Inr (cp2, vc, r)"
    by blast
  then show ?thesis
    using rd r by (simp add: point_residual_def Let_def)
qed

lemma Evaluate_loop_step:
  "i < NumParameters s div 2 \<Longrightarrow>
   Evaluate_loop K s ps i st =
     (case Evaluate_body K s ps i st of
        Inl e \<Rightarrow> Inl e
      | Inr st' \<Rightarrow> Evaluate_loop K s ps (i + 1) st')"
  by simp

lemma Evaluate_loop_stop:
  "\<not> i < NumParameters s div 2 \<Longrightarrow> Evaluate_loop K s ps i st = Inr st"
  by simp

lemma Evaluate_loop_Inr:
  assumes "Evaluate_loop K s ps i st = Inr st'" and "i < NumParameters s div 2"
  obtains st1 where "Evaluate_body K s ps i st = Inr st1"
    and "Evaluate_loop K s ps (i + 1) st1 = Inr st'"
  using assms(1) unfolding Evaluate_loop_step [OF assms(2)]
  by (cases "Evaluate_body K s ps i st") simp_all

lemma upt_max_step: "1 \<le> i \<Longrightarrow> i < m \<Longrightarrow> [max 1 i ..< m] = i # [max 1 (i + 1) ..< m]"
  by (simp add: upt_conv_Cons max_def)

text \<open>The cost after the loop is the sum of the residual terms of the interior points
  that the loop still had to visit.\<close>

lemma Evaluate_loop_cost:
  "Evaluate_loop K s ps i st = Inr st' \<Longrightarrow>
   foldl (\<lambda>acc k. bindE acc (point_residual K s ps k)) (Inr (cost_raw st))
     [max 1 i ..< NumParameters s div 2 - 1] = Inr (cost_raw st')"
proof (induction m \<equiv> "NumParameters s div 2 - i" arbitrary: i st)
  case 0
  then show ?case by (simp add: Evaluate_loop_stop del: Evaluate_loop.simps)
next
  case (Suc m)
  then have lt: "i < NumParameters s div 2" and m: "m = NumParameters s div 2 - (i + 1)"
    by simp_all
  from Evaluate_loop_Inr [OF Suc.prems(1) lt] obtain st1 where
    b: "Evaluate_body K s ps i st = Inr st1" and l: "Evaluate_loop K s ps (i + 1) st1 = Inr st'"
    by blast
  note IH = Suc.hyps(1) [OF m l]
  show ?case
  proof (cases "i < 1 \<or> NumParameters s div 2 - 1 \<le> i")
    case True
    with Evaluate_body_gradient [OF b] have c: "cost_raw st1 = cost_raw st" by auto
    from True have "[max 1 i ..< NumParameters s div 2 - 1] =
        [max 1 (i + 1) ..< NumParameters s div 2 - 1]"
      by (auto simp: max_def)
    with IH c show ?thesis by (simp del: Evaluate_loop.simps)
  next
    case False
    then have "1 \<le> i" "i < NumParameters s div 2 - 1" by auto
    from upt_max_step [OF this] Evaluate_body_cost [OF b False] IH show ?thesis
      by (simp del: Evaluate_loop.simps)
  qed
qed

text \<open>The gradient array after the loop: its length is unchanged, the entries of the
  points before \<open>i\<close> are unchanged, and the entries of the first and the last point are 0.\<close>

lemma Evaluate_loop_gradient:
  "Evaluate_loop K s ps i st = Inr st' \<Longrightarrow> gradient st = Some a \<Longrightarrow>
   \<exists>a'. gradient st' = Some a' \<and> length a' = length a \<and>
        (\<forall>k < 2 * i. a' ! k = a ! k) \<and>
        (i < NumParameters s div 2 \<longrightarrow> NumParameters s \<le> length a) \<and>
        (\<forall>k. i \<le> k \<and> k < NumParameters s div 2 \<and> (k < 1 \<or> NumParameters s div 2 - 1 \<le> k) \<longrightarrow>
           a' ! (2 * k) = Fin 0 \<and> a' ! (2 * k + 1) = Fin 0)"
proof (induction m \<equiv> "NumParameters s div 2 - i" arbitrary: i st a)
  case 0
  then have "\<not> i < NumParameters s div 2" by simp
  with 0 show ?case by (auto simp: Evaluate_loop_stop simp del: Evaluate_loop.simps)
next
  case (Suc m)
  then have lt: "i < NumParameters s div 2" and m: "m = NumParameters s div 2 - (i + 1)"
    by simp_all
  from Evaluate_loop_Inr [OF Suc.prems(1) lt] obtain st1 where
    b: "Evaluate_body K s ps i st = Inr st1" and l: "Evaluate_loop K s ps (i + 1) st1 = Inr st'"
    by blast
  from Evaluate_body_gradient [OF b] Suc.prems(2) obtain a1 where
    a1: "gradient st1 = Some a1" "length a1 = length a" "2 * i + 1 < length a"
        "\<forall>k. k \<noteq> 2 * i \<and> k \<noteq> 2 * i + 1 \<longrightarrow> a1 ! k = a ! k"
        "i < 1 \<or> NumParameters s div 2 - 1 \<le> i \<longrightarrow>
           a1 ! (2 * i) = Fin 0 \<and> a1 ! (2 * i + 1) = Fin 0"
    by auto
  from Suc.hyps(1) [OF m l a1(1)] obtain a' where
    a': "gradient st' = Some a'" "length a' = length a1"
        "\<forall>k < 2 * (i + 1). a' ! k = a1 ! k"
        "i + 1 < NumParameters s div 2 \<longrightarrow> NumParameters s \<le> length a1"
        "\<forall>k. i + 1 \<le> k \<and> k < NumParameters s div 2 \<and>
             (k < 1 \<or> NumParameters s div 2 - 1 \<le> k) \<longrightarrow>
           a' ! (2 * k) = Fin 0 \<and> a' ! (2 * k + 1) = Fin 0"
    by blast
  have pres: "\<forall>k < 2 * i. a' ! k = a ! k"
    using a'(3) a1(4) by auto
  have len: "NumParameters s \<le> length a"
  proof (cases "i + 1 < NumParameters s div 2")
    case True
    with a'(4) a1(2) show ?thesis by simp
  next
    case False
    with lt have "NumParameters s div 2 = i + 1" by simp
    then have "NumParameters s = 2 * i + 2" by (simp add: NumParameters_def)
    with a1(3) show ?thesis by simp
  qed
  have ends: "a' ! (2 * k) = Fin 0 \<and> a' ! (2 * k + 1) = Fin 0"
    if "i \<le> k" "k < NumParameters s div 2" "k < 1 \<or> NumParameters s div 2 - 1 \<le> k" for k
  proof (cases "k = i")
    case True
    with that a1(5) a'(3) show ?thesis by simp
  next
    case False
    with that a'(5) show ?thesis by simp
  qed
  from a'(1) a'(2) a1(2) pres len ends show ?case by auto
qed

lemma Evaluate_Inr:
  assumes "Evaluate K s ps g = Inr (ok, cost, g')"
  obtains st' where
    "Evaluate_loop K s ps 0
       \<lparr>cost_raw = Fin 0, grad_x_raw = Fin 0, grad_y_raw = Fin 0,
        curvature_params = CurvatureComputations_new, gradient = g\<rparr> = Inr st'"
    and "ok" and "cost = cost_raw st'" and "g' = gradient st'"
  using assms unfolding Evaluate_def by (auto simp: bindE_Inr_iff simp del: Evaluate_loop.simps)

lemma Evaluate_gradient_given:
  assumes "Evaluate K s ps g = Inr (ok, cost, g')" and "1 \<le> length (original_path s)"
  shows "\<exists>a. g = Some a"
proof -
  from assms(1) obtain st' where
    l: "Evaluate_loop K s ps 0
       \<lparr>cost_raw = Fin 0, grad_x_raw = Fin 0, grad_y_raw = Fin 0,
        curvature_params = CurvatureComputations_new, gradient = g\<rparr> = Inr st'"
    by (rule Evaluate_Inr)
  from assms(2) have lt: "0 < NumParameters s div 2" by (auto simp: NumParameters_def)
  from Evaluate_loop_Inr [OF l lt] obtain st1 where
    "Evaluate_body K s ps 0
       \<lparr>cost_raw = Fin 0, grad_x_raw = Fin 0, grad_y_raw = Fin 0,
        curvature_params = CurvatureComputations_new, gradient = g\<rparr> = Inr st1"
    by blast
  from Evaluate_body_gradient [OF this] show ?thesis by auto
qed

text \<open>The example evaluations.\<close>

lemma round64_0 [simp]: "round64 0 = Fin 0"
  by (simp add: round64_def)

text \<open>
  \<open>normalizedOrthogonalComplement a b\<close> divides by the squared norm of \<open>b\<close>: for \<open>b\<close> the
  origin that is a division of zero or of NaN by zero. The curvature Jacobian at a point
  at the origin is NaN whenever the term is valid.
\<close>

lemma squaredNorm_origin: "squaredNorm (Fin 0, Fin 0) = Fin 0"
  by (simp add: squaredNorm_def dot_def)

lemma normalizedOrthogonalComplement_origin:
  "normalizedOrthogonalComplement a (Fin 0, Fin 0) a_norm b_norm = (NaN, NaN)"
  by (cases "dot a (Fin 0, Fin 0)")
    (simp_all add: normalizedOrthogonalComplement_def vdiv_def vsub_def vscale_def
      squaredNorm_origin)

lemma corner_jacobian:
  "valid cp \<Longrightarrow> addCurvatureJacobian w (Fin 0, Fin 0) pt_p pt_m cp j = (NaN, NaN)"
  by (simp add: addCurvatureJacobian_def isValid_def Let_def
      normalizedOrthogonalComplement_origin vsub_def smul_def vneg_def)

lemmas eval_defs = Evaluate_def Evaluate_body_def NumParameters_def grid5_def
  write_array_def read_point_def read_array_def
  compute_cost_def compute_gradient_def costmap_residual_def path_at_def
  addSmoothingResidual_def addSmoothingJacobian_def addDistanceResidual_def
  addDistanceJacobian_def dot_def vsub_def minus_fp_def Let_def round64_int

lemma Evaluate_corner:
  "Evaluate K corner_smoother corner_parameters
     (Some [Fin 0, Fin 0, Fin 0, Fin 0, Fin 0, Fin 0]) =
   Inr (True, Fin 0, Some [Fin 0, Fin 0, NaN, NaN, Fin 0, Fin 0])"
  by (simp add: eval_defs corner_smoother_def corner_parameters_def corner_residual
      corner_jacobian)

lemma Evaluate_straight:
  "Evaluate K straight_smoother straight_parameters
     (Some [Fin 7, Fin 7, Fin 7, Fin 7, Fin 7, Fin 7, Fin 7, Fin 7, Fin 7, Fin 7]) =
   Inr (True, Fin 0,
        Some [Fin 0, Fin 0, Fin 0, Fin 0, Fin 0, Fin 0, Fin 0, Fin 0, Fin 0, Fin 0])"
  using straight_residual [of _ 0] straight_residual [of _ 1] straight_residual [of _ 2]
  by (simp add: eval_defs straight_smoother_def straight_parameters_def
      addCurvatureJacobian_def isValid_def)

lemma Evaluate_bend:
  "Evaluate K bend_smoother corner_parameters
     (Some [Fin 7, Fin 7, Fin 7, Fin 7, Fin 7, Fin 7]) =
   Inr (True, Fin 2, Some [Fin 0, Fin 0, Fin 4, Fin (- 4), Fin 0, Fin 0])"
  by (simp add: eval_defs bend_smoother_def corner_parameters_def bend_residual
      addCurvatureJacobian_def isValid_def)

declare Evaluate_loop.simps [simp del]

text \<open>
  C2. Let \<open>n\<close> be the number of points. If \<open>n \<ge> 2\<close> and \<open>Evaluate\<close> returns, the gradient
  it leaves has 0 at the indices 0, 1, \<open>2n - 2\<close> and \<open>2n - 1\<close>, and the cost it returns is
  the sum of the residual terms of the interior points \<open>1, \<dots>, n - 2\<close> only.
\<close>

theorem Evaluate_endpoints_fixed:
  assumes "Evaluate K s parameters g = Inr (ok, cost, g')"
    and "2 \<le> length (original_path s)"
  shows "\<exists>a. g' = Some a \<and> a ! 0 = Fin 0 \<and> a ! 1 = Fin 0 \<and>
             a ! (NumParameters s - 2) = Fin 0 \<and> a ! (NumParameters s - 1) = Fin 0 \<and>
             interior_cost K s parameters = Inr cost"
proof -
  let ?st = "\<lparr>cost_raw = Fin 0, grad_x_raw = Fin 0, grad_y_raw = Fin 0,
              curvature_params = CurvatureComputations_new, gradient = g\<rparr>"
  let ?n = "length (original_path s)"
  from assms(1) obtain st' where
    l: "Evaluate_loop K s parameters 0 ?st = Inr st'" and
    c: "cost = cost_raw st'" and g': "g' = gradient st'"
    by (rule Evaluate_Inr)
  from assms(2) have "1 \<le> ?n" by simp
  from Evaluate_gradient_given [OF assms(1) this] obtain a0 where a0: "g = Some a0"
    by blast
  then have "gradient ?st = Some a0" by simp
  from Evaluate_loop_gradient [OF l this] obtain a where
    full: "gradient st' = Some a \<and> length a = length a0 \<and>
        (\<forall>k < 2 * 0. a ! k = a0 ! k) \<and>
        (0 < NumParameters s div 2 \<longrightarrow> NumParameters s \<le> length a0) \<and>
        (\<forall>k. 0 \<le> k \<and> k < NumParameters s div 2 \<and> (k < 1 \<or> NumParameters s div 2 - 1 \<le> k) \<longrightarrow>
           a ! (2 * k) = Fin 0 \<and> a ! (2 * k + 1) = Fin 0)" ..
  note a = full [THEN conjunct1]
    and ends = full [THEN conjunct2, THEN conjunct2, THEN conjunct2, THEN conjunct2]
  have n: "NumParameters s div 2 = ?n"
    by (simp add: NumParameters_def)
  from assms(2) have pos: "0 < ?n" by arith
  have first: "a ! 0 = Fin 0 \<and> a ! 1 = Fin 0"
    using ends [rule_format, of 0] pos by (simp add: n)
  have "a ! (2 * (?n - 1)) = Fin 0 \<and> a ! (2 * (?n - 1) + 1) = Fin 0"
    using ends [rule_format, of "?n - 1"] pos by (simp add: n)
  moreover have "2 * (?n - 1) = NumParameters s - 2" "2 * (?n - 1) + 1 = NumParameters s - 1"
    using assms(2) by (simp_all add: NumParameters_def)
  ultimately have last: "a ! (NumParameters s - 2) = Fin 0 \<and> a ! (NumParameters s - 1) = Fin 0"
    by (simp only:)
  have "foldl (\<lambda>acc k. bindE acc (point_residual K s parameters k)) (Inr (cost_raw ?st))
     [max 1 0 ..< NumParameters s div 2 - 1] = Inr (cost_raw st')"
    by (rule Evaluate_loop_cost [OF l])
  then have ic: "interior_cost K s parameters = Inr cost"
    unfolding interior_cost_def n c by simp
  show ?thesis
    using a g' first last ic by (intro exI [of _ a]) (simp only: simp_thms)
qed

theorem Evaluate_endpoints_fixed_witness:
  "2 \<le> length (original_path bend_smoother) \<and>
   Evaluate example_codes bend_smoother corner_parameters
     (Some [Fin 7, Fin 7, Fin 7, Fin 7, Fin 7, Fin 7]) =
     Inr (True, Fin 2, Some [Fin 0, Fin 0, Fin 4, Fin (- 4), Fin 0, Fin 0]) \<and>
   NumParameters bend_smoother = 6 \<and>
   interior_cost example_codes bend_smoother corner_parameters = Inr (Fin 2)"
proof -
  have n: "2 \<le> length (original_path bend_smoother)"
    by (simp add: bend_smoother_def)
  have m: "NumParameters bend_smoother = 6"
    by (simp add: NumParameters_def bend_smoother_def)
  from Evaluate_endpoints_fixed [OF Evaluate_bend n, of example_codes]
  have "interior_cost example_codes bend_smoother corner_parameters = Inr (Fin 2)"
    by simp
  with n m Evaluate_bend [of example_codes] show ?thesis
    by (intro conjI)
qed

text \<open>
  C5, at the path \<open>(-1, 0), (0, 0), (0, 1)\<close>. With all four weights 0 and the curvature
  bound 0, \<open>Evaluate\<close> returns the cost 0 and a gradient that is NaN at the indices 2
  and 3: the curvature term is valid at the corner, \<open>normalizedOrthogonalComplement\<close>
  divides by the squared norm of the point \<open>(0, 0)\<close>, and the weight 0 times NaN is NaN.
\<close>

theorem Evaluate_zero_weights_nan_gradient:
  "Wsmooth corner_smoother = Fin 0 \<and> Wcurve corner_smoother = Fin 0 \<and>
   Wcost corner_smoother = Fin 0 \<and> Wdist corner_smoother = Fin 0 \<and>
   Evaluate example_codes corner_smoother corner_parameters
     (Some [Fin 0, Fin 0, Fin 0, Fin 0, Fin 0, Fin 0]) =
     Inr (True, Fin 0, Some [Fin 0, Fin 0, NaN, NaN, Fin 0, Fin 0])"
proof -
  have "Wsmooth corner_smoother = Fin 0" "Wcurve corner_smoother = Fin 0"
    "Wcost corner_smoother = Fin 0" "Wdist corner_smoother = Fin 0"
    by (simp_all add: corner_smoother_def)
  with Evaluate_corner [of example_codes] show ?thesis
    by (intro conjI)
qed

text \<open>
  C9, as the code has it. \<open>Evaluate\<close> has no check of the cost or of the gradient: an
  evaluation that returns, returns true.
\<close>

theorem Evaluate_never_reports_failure:
  "Evaluate K s parameters g = Inr (ok, cost, g') \<Longrightarrow> ok"
  by (erule Evaluate_Inr)

theorem Evaluate_never_reports_failure_witness:
  "Evaluate example_codes straight_smoother straight_parameters
     (Some [Fin 7, Fin 7, Fin 7, Fin 7, Fin 7, Fin 7, Fin 7, Fin 7, Fin 7, Fin 7]) =
   Inr (True, Fin 0,
        Some [Fin 0, Fin 0, Fin 0, Fin 0, Fin 0, Fin 0, Fin 0, Fin 0, Fin 0, Fin 0])"
  using Evaluate_never_reports_failure [OF Evaluate_straight [of example_codes]]
  by (simp add: Evaluate_straight)

text \<open>An evaluation whose gradient becomes NaN reports success.\<close>

theorem Evaluate_nan_gradient_reports_success:
  "Evaluate example_codes corner_smoother corner_parameters
     (Some [Fin 0, Fin 0, Fin 0, Fin 0, Fin 0, Fin 0]) =
     Inr (True, Fin 0, Some [Fin 0, Fin 0, NaN, NaN, Fin 0, Fin 0]) \<and>
   isnan ([Fin 0, Fin 0, NaN, NaN, Fin 0, Fin 0] ! 2) \<and>
   \<not> isfinite ([Fin 0, Fin 0, NaN, NaN, Fin 0, Fin 0] ! 3)"
  by (simp add: Evaluate_corner)

text \<open>
  C10. With at least one point, \<open>Evaluate\<close> writes through \<^verbatim>\<open>gradient\<close> before it tests
  it: called with the null pointer it does not return, an evaluation that returns was
  given an array of at least \<open>2n\<close> entries, and an iteration of the loop that completes
  had a non-null \<^verbatim>\<open>gradient\<close>, so that its test \<^verbatim>\<open>gradient != NULL\<close> was true.
\<close>

theorem Evaluate_gradient_precondition:
  "(1 \<le> length (original_path s) \<longrightarrow> Evaluate K s parameters None = Inl NullPointerWrite) \<and>
   (1 \<le> length (original_path s) \<and> Evaluate K s parameters g = Inr (ok, cost, g') \<longrightarrow>
      (\<exists>a. g = Some a \<and> NumParameters s \<le> length a)) \<and>
   (Evaluate_body K s parameters i st = Inr st' \<longrightarrow> gradient st \<noteq> None \<and> gradient st' \<noteq> None)"
proof (intro conjI impI)
  assume "1 \<le> length (original_path s)"
  then have lt: "0 < NumParameters s div 2" by (auto simp: NumParameters_def)
  show "Evaluate K s parameters None = Inl NullPointerWrite"
    by (simp add: Evaluate_def Evaluate_loop_step [OF lt] Evaluate_body_def write_array_def)
next
  assume h: "1 \<le> length (original_path s) \<and> Evaluate K s parameters g = Inr (ok, cost, g')"
  then have lt: "0 < NumParameters s div 2" by (auto simp: NumParameters_def)
  from h Evaluate_gradient_given obtain a where a: "g = Some a" by blast
  let ?st = "\<lparr>cost_raw = Fin 0, grad_x_raw = Fin 0, grad_y_raw = Fin 0,
              curvature_params = CurvatureComputations_new, gradient = g\<rparr>"
  from h obtain st' where l: "Evaluate_loop K s parameters 0 ?st = Inr st'"
    by (auto elim: Evaluate_Inr)
  from a have "gradient ?st = Some a" by simp
  from Evaluate_loop_gradient [OF l this] lt have "NumParameters s \<le> length a" by blast
  with a show "\<exists>a. g = Some a \<and> NumParameters s \<le> length a" by simp
next
  assume "Evaluate_body K s parameters i st = Inr st'"
  from Evaluate_body_gradient [OF this] show "gradient st \<noteq> None" by auto
next
  assume "Evaluate_body K s parameters i st = Inr st'"
  from Evaluate_body_gradient [OF this] show "gradient st' \<noteq> None" by auto
qed

theorem Evaluate_gradient_precondition_witness:
  "1 \<le> length (original_path straight_smoother) \<and>
   Evaluate example_codes straight_smoother straight_parameters None = Inl NullPointerWrite \<and>
   Evaluate example_codes straight_smoother straight_parameters
     (Some [Fin 7, Fin 7, Fin 7, Fin 7, Fin 7, Fin 7, Fin 7, Fin 7, Fin 7, Fin 7]) =
   Inr (True, Fin 0,
        Some [Fin 0, Fin 0, Fin 0, Fin 0, Fin 0, Fin 0, Fin 0, Fin 0, Fin 0, Fin 0]) \<and>
   NumParameters straight_smoother
     \<le> length [Fin 7, Fin 7, Fin 7, Fin 7, Fin 7, Fin 7, Fin 7, Fin 7, Fin 7, Fin 7 :: fp]"
proof -
  have n: "1 \<le> length (original_path straight_smoother)"
    by (simp add: straight_smoother_def)
  from Evaluate_gradient_precondition [of straight_smoother example_codes straight_parameters] n
  have "Evaluate example_codes straight_smoother straight_parameters None = Inl NullPointerWrite"
    by blast
  moreover have "NumParameters straight_smoother
     \<le> length [Fin 7, Fin 7, Fin 7, Fin 7, Fin 7, Fin 7, Fin 7, Fin 7, Fin 7, Fin 7 :: fp]"
    by (simp add: NumParameters_def straight_smoother_def)
  ultimately show ?thesis
    using n Evaluate_straight [of example_codes] by (intro conjI)
qed

section \<open>Properties of the costmap gradient\<close>

text \<open>
  A vector whose components are at most \<open>2\<^sup>9\<close> in magnitude is normalized to a finite vector:
  no intermediate value overflows, and the square root of a positive double is a positive
  double.
\<close>

lemma normalize_v_finite:
  assumes "\<bar>a\<bar> \<le> pow2 9" and "\<bar>b\<bar> \<le> pow2 9"
  shows "\<exists>a' b'. normalize_v (Fin a, Fin b) = (Fin a', Fin b')"
proof -
  have p18: "pow2 9 * pow2 9 = pow2 18" by (simp add: pow2_add [symmetric])
  have "\<bar>a * a\<bar> \<le> pow2 18"
    unfolding abs_mult p18 [symmetric] using assms(1) by (intro mult_mono) simp_all
  from round64_bounded [OF this] obtain s1 where s1: "round64 (a * a) = Fin s1" "\<bar>s1\<bar> \<le> pow2 18"
    by auto
  have "\<bar>b * b\<bar> \<le> pow2 18"
    unfolding abs_mult p18 [symmetric] using assms(2) by (intro mult_mono) simp_all
  from round64_bounded [OF this] obtain s2 where s2: "round64 (b * b) = Fin s2" "\<bar>s2\<bar> \<le> pow2 18"
    by auto
  have "pow2 19 = 2 * pow2 18" by (simp add: pow2_def)
  then have "\<bar>s1 + s2\<bar> \<le> pow2 19" using s1(2) s2(2) by linarith
  from round64_bounded [OF this] obtain z where z: "round64 (s1 + s2) = Fin z" "\<bar>z\<bar> \<le> pow2 19"
    by auto
  have sq: "squaredNorm (Fin a, Fin b) = Fin z"
    by (simp add: squaredNorm_def dot_def s1 s2 z)
  show ?thesis
  proof (cases "0 < z")
    case False
    then show ?thesis by (simp add: normalize_v_def sq Let_def)
  next
    case True
    from round64_granular [OF z(1)] True have zl: "pow2 (- 1074) \<le> z" by simp
    have "(pow2 (- 537))\<^sup>2 = pow2 (- 1074)"
      by (simp add: power2_eq_square pow2_add [symmetric])
    with zl have "(pow2 (- 537))\<^sup>2 \<le> z" by simp
    then have lo: "pow2 (- 537) \<le> sqrt z" by (rule real_le_rsqrt)
    have "(pow2 10)\<^sup>2 = pow2 20"
      by (simp add: power2_eq_square pow2_add [symmetric])
    moreover have "pow2 19 \<le> pow2 20" by (rule pow2_mono) simp
    ultimately have "z \<le> (pow2 10)\<^sup>2" using z(2) by linarith
    then have "sqrt z \<le> pow2 10" by (intro real_le_lsqrt) simp_all
    then have "\<bar>sqrt z\<bar> \<le> pow2 10" using True by simp
    from round64_bounded [OF this] obtain s where s: "round64 (sqrt z) = Fin s" by auto
    from round64_lower [OF lo] s have sl: "pow2 (- 537) \<le> s" by simp
    then have spos: "0 < s" using pow2_pos [of "- 537"] by linarith
    have p546: "pow2 9 = pow2 546 * pow2 (- 537)" by (simp add: pow2_add [symmetric])
    have q: "\<bar>c / s\<bar> \<le> pow2 546" if "\<bar>c\<bar> \<le> pow2 9" for c
    proof -
      have "pow2 546 * pow2 (- 537) \<le> pow2 546 * s" using sl by (intro mult_left_mono) simp_all
      with that p546 have "\<bar>c\<bar> \<le> pow2 546 * s" by linarith
      then have "\<bar>c\<bar> / s \<le> pow2 546" using spos by (simp add: pos_divide_le_eq)
      then show ?thesis using spos by simp
    qed
    from round64_bounded [OF q [OF assms(1)]] obtain a' where a': "round64 (a / s) = Fin a'" by auto
    from round64_bounded [OF q [OF assms(2)]] obtain b' where b': "round64 (b / s) = Fin b'" by auto
    show ?thesis
      using True spos by (simp add: normalize_v_def sq Let_def s vdiv_def a' b')
  qed
qed

text \<open>
  The central differences of costs between 0 and 255 are computed without rounding up to
  the division by 60, and the quotient is at most \<open>2\<^sup>9\<close> in magnitude.
\<close>

lemma stencil_finite:
  assumes "a1 \<in> \<int>" "a2 \<in> \<int>" "a3 \<in> \<int>" "b1 \<in> \<int>" "b2 \<in> \<int>" "b3 \<in> \<int>"
    and "0 \<le> a1" "a1 \<le> 255" "0 \<le> a2" "a2 \<le> 255" "0 \<le> a3" "a3 \<le> 255"
    and "0 \<le> b1" "b1 \<le> 255" "0 \<le> b2" "b2 \<le> 255" "0 \<le> b3" "b3 \<le> 255"
  shows "\<exists>g. (Fin 45 * Fin a1 - Fin 9 * Fin a2 + Fin a3
                - Fin 45 * Fin b1 + Fin 9 * Fin b2 - Fin b3) / Fin 60 = Fin g \<and>
             \<bar>g\<bar> \<le> pow2 9"
proof -
  have m: "Fin 45 * Fin a1 = Fin (45 * a1)" "Fin 9 * Fin a2 = Fin (9 * a2)"
    "Fin 45 * Fin b1 = Fin (45 * b1)" "Fin 9 *Fin b2 = Fin (9 * b2)"
    using assms by (simp_all add: round64_int abs_less_iff)
  have s1: "Fin (45 * a1) - Fin (9 * a2) = Fin (45 * a1 - 9 * a2)"
    using assms by (intro fp_minus_exact) simp_all
  have s2: "Fin (45 * a1 - 9 * a2) + Fin a3 = Fin (45 * a1 - 9 * a2 + a3)"
    using assms by (intro fp_plus_exact) simp_all
  have s3: "Fin (45 * a1 - 9 * a2 + a3) - Fin (45 * b1) = Fin (45 * a1 - 9 * a2 + a3 - 45 * b1)"
    using assms by (intro fp_minus_exact) simp_all
  have s4: "Fin (45 * a1 - 9 * a2 + a3 - 45 * b1) + Fin (9 * b2) =
      Fin (45 * a1 - 9 * a2 + a3 - 45 * b1 + 9 * b2)"
    using assms by (intro fp_plus_exact) simp_all
  have s5: "Fin (45 * a1 - 9 * a2 + a3 - 45 * b1 + 9 * b2) - Fin b3 =
      Fin (45 * a1 - 9 * a2 + a3 - 45 * b1 + 9 * b2 - b3)"
    using assms by (intro fp_minus_exact) simp_all
  have "pow2 9 = 512" by (simp add: pow2_def)
  then have "\<bar>(45 * a1 - 9 * a2 + a3 - 45 * b1 + 9 * b2 - b3) / 60\<bar> \<le> pow2 9"
    using assms(7-18) by (simp add: abs_le_iff)
  from round64_bounded [OF this] obtain g
    where g: "round64 ((45 * a1 - 9 * a2 + a3 - 45 * b1 + 9 * b2 - b3) / 60) = Fin g"
      "\<bar>g\<bar> \<le> pow2 9" by auto
  have "(Fin 45 * Fin a1 - Fin 9 * Fin a2 + Fin a3
          - Fin 45 * Fin b1 + Fin 9 * Fin b2 - Fin b3) / Fin 60 =
        Fin (45 * a1 - 9 * a2 + a3 - 45 * b1 + 9 * b2 - b3) / Fin 60"
    by (simp only: m s1 s2 s3 s4 s5)
  also have "\<dots> = Fin g" by (simp add: g(1))
  finally show ?thesis using g(2) by blast
qed

text \<open>
  At a cell that is at least two cells from the left and lower border and at least four
  from the right and upper border, every read is inside the grid and the gradient is
  finite.
\<close>

lemma guarded_read_inside:
  "(guard \<Longrightarrow> x < sizeX cm \<and> y < sizeY cm) \<Longrightarrow>
   \<exists>v. guarded_read cm guard x y = Inr (Fin v) \<and> v \<in> \<int> \<and> 0 \<le> v \<and> v \<le> 255"
proof -
  have "unat c \<le> 255" for c :: u8 using unsigned_less [of c, where ?'a = nat] by simp
  then have "real (unat c) \<le> 255" for c :: u8 by (metis of_nat_le_iff of_nat_numeral)
  moreover assume "guard \<Longrightarrow> x < sizeX cm \<and> y < sizeY cm"
  ultimately show ?thesis
    by (auto simp: guarded_read_def getCost_def fp_of_u8_def simp del: of_nat_unat)
qed


lemma getCostmapGradient_interior:
  assumes "2 \<le> mx" "unat mx + 3 < unat (sizeX cm)" "2 \<le> my" "unat my + 3 < unat (sizeY cm)"
  shows "\<exists>a b. getCostmapGradient cm mx my = Inr (Fin a, Fin b)"
proof -
  have x: "mx < sizeX cm" "mx + 1 < sizeX cm" "mx + 2 < sizeX cm" "mx + 3 < sizeX cm"
    "mx - 1 < sizeX cm" "mx - 2 < sizeX cm" "\<not> 0 < mx - 2 \<or> mx - 3 < sizeX cm"
    using assms(1,2) by unat_arith+
  have y: "my < sizeY cm" "my + 1 < sizeY cm" "my + 2 < sizeY cm" "my + 3 < sizeY cm"
    "my - 1 < sizeY cm" "my - 2 < sizeY cm" "\<not> 0 < my - 2 \<or> my - 3 < sizeY cm"
    using assms(3,4) by unat_arith+
  obtain r1 where r1: "guarded_read cm (mx < sizeX cm) (mx + 1) (my) = Inr (Fin r1)"
    "r1 \<in> \<int>" "0 \<le> r1" "r1 \<le> 255"
    using guarded_read_inside [of "mx < sizeX cm" "mx + 1" cm my] x y by blast
  obtain r2 where r2: "guarded_read cm (mx + 1 < sizeX cm) (mx + 2) (my) = Inr (Fin r2)"
    "r2 \<in> \<int>" "0 \<le> r2" "r2 \<le> 255"
    using guarded_read_inside [of "mx + 1 < sizeX cm" "mx + 2" cm my] x y by blast
  obtain r3 where r3: "guarded_read cm (mx + 2 < sizeX cm) (mx + 3) (my) = Inr (Fin r3)"
    "r3 \<in> \<int>" "0 \<le> r3" "r3 \<le> 255"
    using guarded_read_inside [of "mx + 2 < sizeX cm" "mx + 3" cm my] x y by blast
  obtain l1 where l1: "guarded_read cm (0 < mx) (mx - 1) (my) = Inr (Fin l1)"
    "l1 \<in> \<int>" "0 \<le> l1" "l1 \<le> 255"
    using guarded_read_inside [of "0 < mx" "mx - 1" cm my] x y by blast
  obtain l2 where l2: "guarded_read cm (0 < mx - 1) (mx - 2) (my) = Inr (Fin l2)"
    "l2 \<in> \<int>" "0 \<le> l2" "l2 \<le> 255"
    using guarded_read_inside [of "0 < mx - 1" "mx - 2" cm my] x y by blast
  obtain l3 where l3: "guarded_read cm (0 < mx - 2) (mx - 3) (my) = Inr (Fin l3)"
    "l3 \<in> \<int>" "0 \<le> l3" "l3 \<le> 255"
    using guarded_read_inside [of "0 < mx - 2" "mx - 3" cm my] x y by blast
  obtain u1 where u1: "guarded_read cm (my < sizeY cm) (mx) (my + 1) = Inr (Fin u1)"
    "u1 \<in> \<int>" "0 \<le> u1" "u1 \<le> 255"
    using guarded_read_inside [of "my < sizeY cm" mx cm "my + 1"] x y by blast
  obtain u2 where u2: "guarded_read cm (my + 1 < sizeY cm) (mx) (my + 2) = Inr (Fin u2)"
    "u2 \<in> \<int>" "0 \<le> u2" "u2 \<le> 255"
    using guarded_read_inside [of "my + 1 < sizeY cm" mx cm "my + 2"] x y by blast
  obtain u3 where u3: "guarded_read cm (my + 2 < sizeY cm) (mx) (my + 3) = Inr (Fin u3)"
    "u3 \<in> \<int>" "0 \<le> u3" "u3 \<le> 255"
    using guarded_read_inside [of "my + 2 < sizeY cm" mx cm "my + 3"] x y by blast
  obtain d1 where d1: "guarded_read cm (0 < my) (mx) (my - 1) = Inr (Fin d1)"
    "d1 \<in> \<int>" "0 \<le> d1" "d1 \<le> 255"
    using guarded_read_inside [of "0 < my" mx cm "my - 1"] x y by blast
  obtain d2 where d2: "guarded_read cm (0 < my - 1) (mx) (my - 2) = Inr (Fin d2)"
    "d2 \<in> \<int>" "0 \<le> d2" "d2 \<le> 255"
    using guarded_read_inside [of "0 < my - 1" mx cm "my - 2"] x y by blast
  obtain d3 where d3: "guarded_read cm (0 < my - 2) (mx) (my - 3) = Inr (Fin d3)"
    "d3 \<in> \<int>" "0 \<le> d3" "d3 \<le> 255"
    using guarded_read_inside [of "0 < my - 2" mx cm "my - 3"] x y by blast
  from stencil_finite [OF u1(2) u2(2) u3(2) d1(2) d2(2) d3(2) u1(3,4) u2(3,4) u3(3,4)
      d1(3,4) d2(3,4) d3(3,4)]
  obtain gx where gx: "(Fin 45 * Fin u1 - Fin 9 * Fin u2 + Fin u3
      - Fin 45 * Fin d1 + Fin 9 * Fin d2 - Fin d3) / Fin 60 = Fin gx" "\<bar>gx\<bar> \<le> pow2 9"
    by blast
  from stencil_finite [OF r1(2) r2(2) r3(2) l1(2) l2(2) l3(2) r1(3,4) r2(3,4) r3(3,4)
      l1(3,4) l2(3,4) l3(3,4)]
  obtain gy where gy: "(Fin 45 * Fin r1 - Fin 9 * Fin r2 + Fin r3
      - Fin 45 * Fin l1 + Fin 9 * Fin l2 - Fin l3) / Fin 60 = Fin gy" "\<bar>gy\<bar> \<le> pow2 9"
    by blast
  have "getCostmapGradient cm mx my = Inr (normalize_v (Fin gx, Fin gy))"
    unfolding getCostmapGradient_def r1(1) r2(1) r3(1) l1(1) l2(1) l3(1)
      u1(1) u2(1) u3(1) d1(1) d2(1) d3(1) bindE.simps gx(1) gy(1) ..
  with normalize_v_finite [OF gx(2) gy(2)] show ?thesis by auto
qed

text \<open>
  C6, at two border cells of the 5 by 5 costmap. At the cell \<open>(0, 0)\<close> the guard
  \<^verbatim>\<open>mx - 1 > 0\<close> is computed in unsigned arithmetic and holds, and the cell
  \<open>(4294967294, 0)\<close> is read; at the cell \<open>(4, 2)\<close> the guard \<^verbatim>\<open>mx < sizeX\<close> holds and the
  cell \<open>(5, 2)\<close> is read. Both reads are outside the grid.
\<close>

theorem getCostmapGradient_reads_outside_grid:
  "getCostmapGradient grid5 0 0 = Inl (CostmapOutOfBounds 4294967294 0) \<and>
   getCostmapGradient grid5 4 2 = Inl (CostmapOutOfBounds 5 2)"
  by (simp add: getCostmapGradient_def guarded_read_def getCost_def grid5_def word_gt_0)



end
